theory Spec2Isabelle
  imports Complex_Main "HOL-Library.Multiset"
begin

section \<open>Mission data: \<open>src/data/models.ts\<close>\<close>

text \<open>
  The two exported tables of \<open>models.ts\<close> are object literals keyed by mission name. Each is
  an association list here, in the order of the literal. The interfaces \<open>ModelInfo\<close> and
  \<open>ModelSpecification\<close> live in a types module that is not among the sources; the records
  below have the fields the literals give. Numbers written with a decimal point are reals,
  the confusion-matrix entries are integers. The \<open>logo\<close> strings are emoji, given as their
  UTF-8 bytes.
\<close>

record ModelInfo =
  name :: string
  description :: string
  yearOfOperation :: string
  accuracy :: real
  f1Score :: real
  logo :: string

record Dataset =
  size_str :: string
  source :: string
  features :: "string list"

record Metrics =
  metrics_accuracy :: real
  precision :: real
  recall :: real
  metrics_f1Score :: real

record ModelSpecification =
  dataset :: Dataset
  architecture :: string
  metrics :: Metrics
  confusionMatrix :: "int list list"

definition K2_info :: ModelInfo where
  "K2_info = \<lparr> name = ''K2'',
     description = ''Extended Kepler mission observing new fields along the ecliptic plane'',
     yearOfOperation = ''2014-2018'',
     accuracy = 94.2,
     f1Score = 0.91,
     logo = [CHR 0xF0, CHR 0x9F, CHR 0x9B, CHR 0xB0, CHR 0xEF, CHR 0xB8, CHR 0x8F] \<rparr>"

definition TESS_info :: ModelInfo where
  "TESS_info = \<lparr> name = ''TESS'',
     description = ''Transiting Exoplanet Survey Satellite scanning nearly the entire sky'',
     yearOfOperation = ''2018-Present'',
     accuracy = 96.8,
     f1Score = 0.94,
     logo = [CHR 0xF0, CHR 0x9F, CHR 0x94, CHR 0xAD] \<rparr>"

definition Kepler_info :: ModelInfo where
  "Kepler_info = \<lparr> name = ''Kepler'',
     description = ''Primary mission monitoring 150,000 stars for planetary transits'',
     yearOfOperation = ''2009-2013'',
     accuracy = 93.5,
     f1Score = 0.89,
     logo = [CHR 0xF0, CHR 0x9F, CHR 0x8C, CHR 0x9F] \<rparr>"

definition models :: "(string \<times> ModelInfo) list" where
  "models = [(''K2'', K2_info), (''TESS'', TESS_info), (''Kepler'', Kepler_info)]"

definition spec_features :: "string list" where
  "spec_features =
     [''koi_model_snr (Signal-to-noise ratio)'',
      ''koi_depth (Transit depth)'',
      ''koi_prad (Planet radius, Earth radii)'',
      ''koi_teq (Equilibrium temperature, K)'',
      ''koi_duration (Transit duration, hours)'',
      ''koi_period (Orbital period, days)'']"

definition K2_spec :: ModelSpecification where
  "K2_spec = \<lparr>
     dataset = \<lparr> size_str = ''4,004 rows'',
                 source = ''k2pandc_2025.10.04_00.32.39.csv'',
                 features = spec_features \<rparr>,
     architecture = ''Random Forest (100 trees) with standardization'',
     metrics = \<lparr> metrics_accuracy = 94.2, precision = 0.92, recall = 0.90,
                 metrics_f1Score = 0.91 \<rparr>,
     confusionMatrix = [[8420, 340], [480, 7760]] \<rparr>"

definition TESS_spec :: ModelSpecification where
  "TESS_spec = \<lparr>
     dataset = \<lparr> size_str = ''7,704 rows'',
                 source = ''TOI_2025.10.04_00.32.31.csv'',
                 features = spec_features \<rparr>,
     architecture = ''Random Forest (100 trees) with standardization'',
     metrics = \<lparr> metrics_accuracy = 96.8, precision = 0.95, recall = 0.93,
                 metrics_f1Score = 0.94 \<rparr>,
     confusionMatrix = [[9120, 180], [360, 8340]] \<rparr>"

definition Kepler_spec :: ModelSpecification where
  "Kepler_spec = \<lparr>
     dataset = \<lparr> size_str = ''9,565 rows'',
                 source = ''cleaned_kepler_train.csv'',
                 features = spec_features \<rparr>,
     architecture = ''Random Forest (100 trees) with standardization'',
     metrics = \<lparr> metrics_accuracy = 93.5, precision = 0.91, recall = 0.88,
                 metrics_f1Score = 0.89 \<rparr>,
     confusionMatrix = [[17200, 800], [1300, 15700]] \<rparr>"

definition modelSpecifications :: "(string \<times> ModelSpecification) list" where
  "modelSpecifications =
     [(''K2'', K2_spec), (''TESS'', TESS_spec), (''Kepler'', Kepler_spec)]"

text \<open>
  The three literals of \<open>modelSpecifications\<close> spell the same six feature strings out; they
  are shared as \<open>spec_features\<close> above.

  Reading helpers for the strings of the table. The row count is stated as text such as
  \<open>4,004 rows\<close>: \<open>stated_rows\<close> reads the decimal digits before the first space, skipping
  the thousands separators. A feature string is a column name followed by a parenthesised
  gloss: \<open>feature_name\<close> is the text before the first space.
\<close>

text \<open>The value of a decimal digit is its position in the digit string; other characters
  count as 0.\<close>

fun position :: "char \<Rightarrow> string \<Rightarrow> nat \<Rightarrow> nat" where
  "position c [] n = 0"
| "position c (d # ds) n = (if c = d then n else position c ds (Suc n))"

definition digit_val :: "char \<Rightarrow> nat" where
  "digit_val c = position c ''0123456789'' 0"

definition stated_rows :: "string \<Rightarrow> nat" where
  "stated_rows s =
     foldl (\<lambda>n c. 10 * n + digit_val c) 0
       (filter (\<lambda>c. c \<noteq> CHR '','') (takeWhile (\<lambda>c. c \<noteq> CHR '' '') s))"

definition feature_name :: "string \<Rightarrow> string" where
  "feature_name s = takeWhile (\<lambda>c. c \<noteq> CHR '' '') s"

definition matrix_total :: "int list list \<Rightarrow> int" where
  "matrix_total m = sum_list (concat m)"

text \<open>
  The list of presentation features of the README (section 6, the \<open>forced\<close> list of the
  training script's snippet), and the column list the Explorer page asks of an upload
  (\<open>Explorer.tsx\<close>, \<open>requiredCols\<close>).
\<close>

definition forced :: "string list" where
  "forced = [''koi_depth'', ''koi_prad'', ''koi_period'', ''koi_teq'', ''koi_duration'',
             ''koi_model_snr'']"

definition requiredCols :: "string list" where
  "requiredCols = [''koi_model_snr'', ''koi_depth'', ''koi_prad'', ''koi_teq'',
                   ''koi_duration'', ''koi_period'', ''status'']"

text \<open>
  Modelled from the spec: the Evaluator (spec 4.3) belongs to the training backend, which is
  not among the sources. Its accuracy is "the fraction of exact label matches" between the
  predicted and the true labels of the test partition. The fraction is undefined for an
  empty partition or for label lists of different lengths: those give \<open>None\<close>.
\<close>

definition evaluate_accuracy :: "'l list \<Rightarrow> 'l list \<Rightarrow> real option" where
  "evaluate_accuracy predicted actual =
     (if actual = [] \<or> length predicted \<noteq> length actual then None
      else Some (real (length (filter (\<lambda>(p, t). p = t) (zip predicted actual)))
                 / real (length actual)))"

section \<open>The Explorer page: \<open>src/pages/Explorer.tsx\<close>\<close>

subsection \<open>JavaScript values and text\<close>

text \<open>
  A JavaScript number is a finite value, one of the two infinities, or NaN. Finite doubles
  are a subset of the reals and are compared as reals. A parsed
  cell is \<open>string | number\<close>, a row is an object whose own properties are the columns.

  Text is a list of characters. The delimiters the page looks for (comma, line feed,
  carriage return, the ASCII blanks) and the letters it lower-cases are ASCII; blanks and
  letters outside ASCII are outside this model.
\<close>

datatype jsnum = Fin real | PosInf | NegInf | NaN

datatype cell = Num jsnum | Str string

type_synonym row = "string \<rightharpoonup> cell"

definition is_space :: "char \<Rightarrow> bool" where
  "is_space c = (c \<in> set [CHR 0x09, CHR 0x0A, CHR 0x0B, CHR 0x0C, CHR 0x0D, CHR 0x20])"

definition trim :: "string \<Rightarrow> string" where
  "trim s = rev (dropWhile is_space (rev (dropWhile is_space s)))"

definition toLowerCase :: "string \<Rightarrow> string" where
  "toLowerCase s =
     map (\<lambda>c. case map_of (zip ''ABCDEFGHIJKLMNOPQRSTUVWXYZ'' ''abcdefghijklmnopqrstuvwxyz'') c of
                 None \<Rightarrow> c | Some l \<Rightarrow> l) s"

text \<open>
  \<open>s.split(d)\<close> for a one-character delimiter: the pieces between the delimiters, one piece
  more than there are delimiters, so never an empty array.
\<close>

fun add_char :: "char \<Rightarrow> string list \<Rightarrow> string list" where
  "add_char c [] = [[c]]"
| "add_char c (w # ws) = (c # w) # ws"

fun split_on :: "char \<Rightarrow> string \<Rightarrow> string list" where
  "split_on d [] = [[]]"
| "split_on d (c # cs) = (if c = d then [] # split_on d cs else add_char c (split_on d cs))"

text \<open>
  \<open>text.split(/\r?\n/)\<close>: a line ends at a line feed, and a carriage return right before
  that line feed belongs to the line end. A carriage return elsewhere is ordinary text.
\<close>

fun split_lines :: "string \<Rightarrow> string list" where
  "split_lines [] = [[]]"
| "split_lines [c] = (if c = CHR 0x0A then [[], []] else [[c]])"
| "split_lines (c # d # cs) =
     (if c = CHR 0x0A then [] # split_lines (d # cs)
      else if c = CHR 0x0D \<and> d = CHR 0x0A then [] # split_lines cs
      else add_char c (split_lines (d # cs)))"

text \<open>
  \<open>Number(s)\<close> on a string: blanks around the text are dropped, the empty text is 0, any
  other text is read as a numeric literal. The literal grammar and its rounding to a double
  are the language's own: \<open>lit\<close> stands for them (the number a literal denotes, NaN for
  text that is no literal), and every statement below holds for any \<open>lit\<close>.
  \<open>Number(v)\<close> on a property that may be missing is NaN for \<open>undefined\<close>.
\<close>

definition Number_str :: "(string \<Rightarrow> jsnum) \<Rightarrow> string \<Rightarrow> jsnum" where
  "Number_str lit s = (let t = trim s in if t = [] then Fin 0 else lit t)"

definition to_number :: "(string \<Rightarrow> jsnum) \<Rightarrow> cell option \<Rightarrow> jsnum" where
  "to_number lit v =
     (case v of None \<Rightarrow> NaN | Some (Num n) \<Rightarrow> n | Some (Str s) \<Rightarrow> Number_str lit s)"

definition isFinite :: "jsnum \<Rightarrow> bool" where
  "isFinite n = (case n of Fin x \<Rightarrow> True | _ \<Rightarrow> False)"

fun js_less :: "jsnum \<Rightarrow> jsnum \<Rightarrow> bool" where
  "js_less NaN b = False"
| "js_less a NaN = False"
| "js_less (Fin x) (Fin y) = (x < y)"
| "js_less (Fin x) PosInf = True"
| "js_less NegInf (Fin y) = True"
| "js_less NegInf PosInf = True"
| "js_less a b = False"

definition js_ge :: "jsnum \<Rightarrow> jsnum \<Rightarrow> bool" where
  "js_ge a b = (a \<noteq> NaN \<and> b \<noteq> NaN \<and> \<not> js_less a b)"

text \<open>
  Objects. The page uses plain object literals as dictionaries, so a property that is not
  an own property is looked up on \<open>Object.prototype\<close>. The own properties are a map; a
  read gives a \<open>jsval\<close>. On \<open>Object.prototype\<close>, \<open>__proto__\<close> is an accessor whose getter
  returns the prototype object and whose setter ignores a value that is not an object;
  \<open>constructor\<close> is the function \<open>Object\<close>; the other names are methods. All values the
  page stores are numbers or strings, so an assignment to \<open>__proto__\<close> stores nothing; an
  assignment to any other name makes an own property.
\<close>

datatype jsval = Undefined | VNum nat | VText string | VFunction string | VObjectProto

definition prototype_methods :: "string list" where
  "prototype_methods =
     [''__defineGetter__'', ''__defineSetter__'', ''hasOwnProperty'', ''__lookupGetter__'',
      ''__lookupSetter__'', ''isPrototypeOf'', ''propertyIsEnumerable'', ''toString'',
      ''valueOf'', ''toLocaleString'']"

definition get_prop :: "(string \<rightharpoonup> jsval) \<Rightarrow> string \<Rightarrow> jsval" where
  "get_prop obj k =
     (case obj k of Some v \<Rightarrow> v
      | None \<Rightarrow> if k = ''__proto__'' then VObjectProto
                else if k = ''constructor'' then VFunction ''Object''
                else if k \<in> set prototype_methods then VFunction k
                else Undefined)"

definition set_prop :: "(string \<rightharpoonup> 'v) \<Rightarrow> string \<Rightarrow> 'v \<Rightarrow> (string \<rightharpoonup> 'v)" where
  "set_prop obj k v = (if k = ''__proto__'' then obj else obj(k \<mapsto> v))"

text \<open>
  \<open>(v ?? 0) + 1\<close>: a missing count starts at 0, a number is incremented, and anything else
  is turned into text and gets the character \<open>1\<close> appended (a built-in function prints as
  \<open>function name() { [native code] }\<close>, the prototype object as \<open>[object Object]\<close>).
\<close>

definition plus_one :: "jsval \<Rightarrow> jsval" where
  "plus_one v =
     (case v of Undefined \<Rightarrow> VNum 1
      | VNum n \<Rightarrow> VNum (n + 1)
      | VText t \<Rightarrow> VText (t @ ''1'')
      | VFunction f \<Rightarrow> VText (''function '' @ f @ ''() { [native code] }'' @ ''1'')
      | VObjectProto \<Rightarrow> VText (''[object Object]'' @ ''1''))"

subsection \<open>\<open>handleFile\<close>: parsing an upload\<close>

text \<open>
  \<open>handleFile\<close> returns the new value of the state \<open>customRows\<close>. \<open>cells[i] ?? ''\<close> is
  \<open>cell_at\<close>; the value stored for a cell is \<open>cell_value\<close> of its trimmed text.
\<close>

definition cell_at :: "string list \<Rightarrow> nat \<Rightarrow> string" where
  "cell_at cells i = (if i < length cells then cells ! i else [])"

definition cell_value :: "(string \<Rightarrow> jsnum) \<Rightarrow> string \<Rightarrow> cell" where
  "cell_value lit raw =
     (let num = Number_str lit raw in if raw \<noteq> [] \<and> num \<noteq> NaN then Num num else Str raw)"

definition parse_row :: "(string \<Rightarrow> jsnum) \<Rightarrow> string list \<Rightarrow> string \<Rightarrow> row" where
  "parse_row lit headers line =
     (let cells = split_on (CHR '','') line
      in foldl (\<lambda>obj (h, i). set_prop obj h (cell_value lit (trim (cell_at cells i))))
           Map.empty (zip headers [0 ..< length headers]))"

definition nonempty_lines :: "string \<Rightarrow> string list" where
  "nonempty_lines text = filter (\<lambda>l. l \<noteq> []) (split_lines text)"

definition handleFile :: "(string \<Rightarrow> jsnum) \<Rightarrow> string \<Rightarrow> row list" where
  "handleFile lit text =
     (let lines = nonempty_lines text
      in if length lines < 2 then []
         else let headers = map trim (split_on (CHR '','') (hd lines))
              in map (parse_row lit headers) (tl lines))"

subsection \<open>Derived data: status counts, distribution, orbital bins, summary\<close>

definition usingUploaded :: "row list \<Rightarrow> bool" where
  "usingUploaded customRows = (length customRows > 0)"

text \<open>
  \<open>String(r.status ?? 'unknown').toLowerCase()\<close>. \<open>String\<close> of a number is the language's
  number printing, for which \<open>numstr\<close> stands.
\<close>

definition status_key :: "(jsnum \<Rightarrow> string) \<Rightarrow> row \<Rightarrow> string" where
  "status_key numstr r =
     toLowerCase (case r ''status'' of None \<Rightarrow> ''unknown''
                  | Some (Str s) \<Rightarrow> s
                  | Some (Num n) \<Rightarrow> numstr n)"

definition initial_counts :: "string \<rightharpoonup> jsval" where
  "initial_counts =
     [''confirmed'' \<mapsto> VNum 0, ''candidate'' \<mapsto> VNum 0, ''false_positive'' \<mapsto> VNum 0,
      ''unknown'' \<mapsto> VNum 0]"

definition count_status :: "(string \<rightharpoonup> jsval) \<Rightarrow> string \<Rightarrow> (string \<rightharpoonup> jsval)" where
  "count_status counts s = set_prop counts s (plus_one (get_prop counts s))"

definition statusCounts :: "(jsnum \<Rightarrow> string) \<Rightarrow> row list \<Rightarrow> (string \<rightharpoonup> jsval)" where
  "statusCounts numstr customRows =
     (if \<not> usingUploaded customRows then initial_counts
      else foldl (\<lambda>counts r. count_status counts (status_key numstr r))
             initial_counts customRows)"

record Colors =
  confirmed :: string
  candidate :: string
  false_positive :: string
  unknown :: string

definition DEFAULT_COLORS :: Colors where
  "DEFAULT_COLORS = \<lparr> confirmed = ''#22c55e'', candidate = ''#06b6d4'',
                      false_positive = ''#ef4444'', unknown = ''#f59e0b'' \<rparr>"

record Slice =
  slice_name :: string
  slice_value :: jsval
  slice_color :: string

text \<open>\<open>d.value > 0\<close>: only a positive number passes; text and functions compare as NaN.\<close>

definition positive :: "jsval \<Rightarrow> bool" where
  "positive v = (case v of VNum n \<Rightarrow> 0 < n | _ \<Rightarrow> False)"

definition distributionData :: "(jsnum \<Rightarrow> string) \<Rightarrow> row list \<Rightarrow> Slice list" where
  "distributionData numstr customRows =
     (if \<not> usingUploaded customRows then []
      else let counts = statusCounts numstr customRows
           in filter (\<lambda>d. positive (slice_value d))
                [\<lparr> slice_name = ''Confirmed'', slice_value = get_prop counts ''confirmed'',
                    slice_color = confirmed DEFAULT_COLORS \<rparr>,
                 \<lparr> slice_name = ''Candidate'', slice_value = get_prop counts ''candidate'',
                    slice_color = candidate DEFAULT_COLORS \<rparr>,
                 \<lparr> slice_name = ''False Positive'',
                    slice_value = get_prop counts ''false_positive'',
                    slice_color = false_positive DEFAULT_COLORS \<rparr>,
                 \<lparr> slice_name = ''Unknown'', slice_value = get_prop counts ''unknown'',
                    slice_color = unknown DEFAULT_COLORS \<rparr>])"

text \<open>The total a chart of these slices shows: the sum of the numeric slice values.\<close>

definition chart_total :: "Slice list \<Rightarrow> nat" where
  "chart_total ds = sum_list (map (\<lambda>d. case slice_value d of VNum n \<Rightarrow> n | _ \<Rightarrow> 0) ds)"

record Bin =
  bin_label :: string
  bin_min :: jsnum
  bin_max :: jsnum

definition bins :: "Bin list" where
  "bins =
     [\<lparr> bin_label = ''0-10d'', bin_min = Fin 0, bin_max = Fin 10 \<rparr>,
      \<lparr> bin_label = ''10-50d'', bin_min = Fin 10, bin_max = Fin 50 \<rparr>,
      \<lparr> bin_label = ''50-100d'', bin_min = Fin 50, bin_max = Fin 100 \<rparr>,
      \<lparr> bin_label = ''100-200d'', bin_min = Fin 100, bin_max = Fin 200 \<rparr>,
      \<lparr> bin_label = ''200+d'', bin_min = Fin 200, bin_max = PosInf \<rparr>]"

text \<open>\<open>findIndex\<close> gives the first index whose element passes, and -1 when none does.\<close>

fun findIndex :: "('a \<Rightarrow> bool) \<Rightarrow> 'a list \<Rightarrow> int" where
  "findIndex P [] = - 1"
| "findIndex P (x # xs) =
     (if P x then 0 else (let i = findIndex P xs in if i < 0 then - 1 else i + 1))"

definition count_period :: "(string \<times> nat) list \<Rightarrow> jsnum \<Rightarrow> (string \<times> nat) list" where
  "count_period counts val =
     (if isFinite val
      then (let idx = findIndex (\<lambda>b. js_ge val (bin_min b) \<and> js_less val (bin_max b)) bins
            in if idx \<ge> 0 \<and> nat idx < length counts
               then counts[nat idx := (fst (counts ! nat idx), snd (counts ! nat idx) + 1)]
               else counts)
      else counts)"

text \<open>
  An entry \<open>{range, count}\<close> of the histogram is a pair. An index that \<open>findIndex\<close> returns
  is an index of \<open>bins\<close>, and \<open>counts\<close> has one entry per bin, so the bound check on
  \<open>counts\<close> in \<open>count_period\<close> never fails in \<open>orbitalData\<close>.
\<close>

definition orbitalData :: "(string \<Rightarrow> jsnum) \<Rightarrow> row list \<Rightarrow> (string \<times> nat) list" where
  "orbitalData lit customRows =
     (if \<not> usingUploaded customRows then []
      else foldl (\<lambda>counts r. count_period counts (to_number lit (r ''koi_period'')))
             (map (\<lambda>b. (bin_label b, 0)) bins) customRows)"

subsection \<open>Arithmetic on doubles\<close>

text \<open>
  The page adds numbers and divides them by a positive number (by 2 in \<open>med\<close>, by the length
  of a non-empty array in \<open>mean\<close>). Both operations give the exact result rounded to a
  double. An exact result whose magnitude reaches \<open>overflow_at\<close>, the midpoint between the
  largest double \<open>2^1024 - 2^971\<close> and \<open>2^1024\<close>, rounds to an infinity. Below that, the result
  is rounded to the nearest double: \<open>rnd\<close> stands for that rounding, which is the language's
  own, and every statement below holds for any \<open>rnd\<close>.
\<close>

definition overflow_at :: real where
  "overflow_at = 2 ^ 1024 - 2 ^ 970"

definition to_double :: "(real \<Rightarrow> real) \<Rightarrow> real \<Rightarrow> jsnum" where
  "to_double rnd x =
     (if overflow_at \<le> x then PosInf else if x \<le> - overflow_at then NegInf else Fin (rnd x))"

fun js_add :: "(real \<Rightarrow> real) \<Rightarrow> jsnum \<Rightarrow> jsnum \<Rightarrow> jsnum" where
  "js_add rnd NaN b = NaN"
| "js_add rnd a NaN = NaN"
| "js_add rnd (Fin x) (Fin y) = to_double rnd (x + y)"
| "js_add rnd PosInf NegInf = NaN"
| "js_add rnd NegInf PosInf = NaN"
| "js_add rnd PosInf b = PosInf"
| "js_add rnd a PosInf = PosInf"
| "js_add rnd NegInf b = NegInf"
| "js_add rnd a NegInf = NegInf"

text \<open>\<open>a / d\<close> for a finite \<open>d > 0\<close>.\<close>

definition js_div_pos :: "(real \<Rightarrow> real) \<Rightarrow> jsnum \<Rightarrow> real \<Rightarrow> jsnum" where
  "js_div_pos rnd a d = (case a of Fin x \<Rightarrow> to_double rnd (x / d) | _ \<Rightarrow> a)"

subsection \<open>\<open>summaryStats\<close> and its helper \<open>med\<close>\<close>

text \<open>
  \<open>getNum\<close> keeps the finite numbers of a column, so the arrays \<open>mean\<close> and \<open>med\<close> receive
  hold finite numbers: they are lists of reals. What \<open>mean\<close> and \<open>med\<close> return is a number
  computed in doubles, which may be an infinity.

  \<open>med\<close> sorts, and \<open>Array.prototype.sort\<close> sorts the array it is called on in place. Arrays
  therefore live in a store, a list of arrays addressed by position: \<open>[...arr]\<close> allocates a
  new array with the same elements at the end of the store, \<open>sort\<close> overwrites the array at
  the address it is given. \<open>med\<close> takes the store and the address of \<open>arr\<close>, and returns the
  store it leaves with its result. The comparison \<open>(a, b) => a - b\<close> has the sign of the exact
  difference for finite numbers (a difference of doubles is 0 only for equal numbers, and
  keeps its sign when it overflows), so it orders them ascending.
\<close>

definition the_fin :: "jsnum \<Rightarrow> real" where
  "the_fin n = (case n of Fin x \<Rightarrow> x | _ \<Rightarrow> 0)"

definition getNum :: "(string \<Rightarrow> jsnum) \<Rightarrow> row list \<Rightarrow> string \<Rightarrow> real list" where
  "getNum lit customRows k =
     map the_fin (filter isFinite (map (\<lambda>r. to_number lit (r k)) customRows))"

definition mean :: "(real \<Rightarrow> real) \<Rightarrow> real list \<Rightarrow> jsnum" where
  "mean rnd arr =
     (if length arr \<noteq> 0
      then js_div_pos rnd (foldl (\<lambda>a b. js_add rnd a (Fin b)) (Fin 0) arr) (real (length arr))
      else Fin 0)"

type_synonym store = "real list list"

definition spread :: "store \<Rightarrow> nat \<Rightarrow> store \<times> nat" where
  "spread h arr = (h @ [h ! arr], length h)"

definition sort_in_place :: "store \<Rightarrow> nat \<Rightarrow> store" where
  "sort_in_place h a = h[a := sort (h ! a)]"

definition med :: "(real \<Rightarrow> real) \<Rightarrow> store \<Rightarrow> nat \<Rightarrow> store \<times> jsnum" where
  "med rnd h arr =
     (if length (h ! arr) = 0 then (h, Fin 0)
      else (let (h1, s) = spread h arr;
                h2 = sort_in_place h1 s;
                m = length (h2 ! s) div 2
            in (h2, if length (h2 ! s) mod 2 \<noteq> 0 then Fin (h2 ! s ! m)
                    else js_div_pos rnd (js_add rnd (Fin (h2 ! s ! (m - 1))) (Fin (h2 ! s ! m))) 2)))"

record Summary =
  rows :: nat
  snrMean :: jsnum
  depthMedian :: jsnum
  periodMean :: jsnum

definition summaryStats ::
  "(string \<Rightarrow> jsnum) \<Rightarrow> (real \<Rightarrow> real) \<Rightarrow> row list \<Rightarrow> Summary" where
  "summaryStats lit rnd customRows =
     (let snr = getNum lit customRows ''koi_model_snr'';
          depth = getNum lit customRows ''koi_depth'';
          period = getNum lit customRows ''koi_period''
      in \<lparr> rows = length customRows,
           snrMean = mean rnd snr,
           depthMedian = snd (med rnd [depth] 0),
           periodMean = mean rnd period \<rparr>)"

text \<open>
  The median in the words of the claim: the middle element of the sorted list for an odd
  length, the average of the two middle elements for an even length.
\<close>

definition median_of :: "real list \<Rightarrow> real" where
  "median_of xs =
     (let ys = sort xs; n = length xs
      in if odd n then ys ! (n div 2) else (ys ! (n div 2 - 1) + ys ! (n div 2)) / 2)"

subsection \<open>Instances for evaluation\<close>

text \<open>
  Two instances of the language's number reading and printing, for evaluating the page's
  functions on sample uploads. \<open>dec_lit\<close> reads a literal made of an optional minus sign and
  decimal digits (the language reads more forms: fractions, exponents, \<open>Infinity\<close>, radix
  prefixes). \<open>dec_str\<close> prints NaN, the infinities and the non-negative whole numbers, the
  way the language does it; the samples print no other number.
\<close>

fun digits_value :: "string \<Rightarrow> nat \<Rightarrow> nat option" where
  "digits_value [] acc = Some acc"
| "digits_value (c # cs) acc =
     (if c \<in> set ''0123456789'' then digits_value cs (10 * acc + digit_val c) else None)"

definition dec_lit :: "string \<Rightarrow> jsnum" where
  "dec_lit s =
     (case s of [] \<Rightarrow> NaN
      | c # cs \<Rightarrow>
          if c = CHR ''-''
          then (if cs = [] then NaN
                else case digits_value cs 0 of None \<Rightarrow> NaN | Some n \<Rightarrow> Fin (- real n))
          else (case digits_value s 0 of None \<Rightarrow> NaN | Some n \<Rightarrow> Fin (real n)))"

fun nat_digits :: "nat \<Rightarrow> nat \<Rightarrow> string" where
  "nat_digits 0 n = []"
| "nat_digits (Suc fuel) n =
     (if n < 10 then [''0123456789'' ! n]
      else nat_digits fuel (n div 10) @ [''0123456789'' ! (n mod 10)])"

definition dec_str :: "jsnum \<Rightarrow> string" where
  "dec_str n =
     (case n of NaN \<Rightarrow> ''NaN'' | PosInf \<Rightarrow> ''Infinity'' | NegInf \<Rightarrow> ''-Infinity''
      | Fin x \<Rightarrow> nat_digits (Suc (nat \<lfloor>x\<rfloor>)) (nat \<lfloor>x\<rfloor>))"

text \<open>
  An instance of the rounding, for evaluating \<open>med\<close> on sample arrays: \<open>exact\<close> changes
  nothing, as the rounding does on a result that is a double already. The samples have
  whole numbers below \<open>2^53\<close> and powers of two, whose sums and halves are doubles.
\<close>

definition exact :: "real \<Rightarrow> real" where
  "exact x = x"

subsection \<open>Notions used in the statements\<close>

text \<open>
  The count a key holds in \<open>counts\<close> (0 when the key is absent or holds no number), whether
  a key holds a number or nothing, the property names found on \<open>Object.prototype\<close>, and
  the half-open and the unbounded intervals of the period histogram as predicates on a
  number.
\<close>

definition count_at :: "(string \<rightharpoonup> jsval) \<Rightarrow> string \<Rightarrow> nat" where
  "count_at counts k = (case counts k of Some (VNum n) \<Rightarrow> n | _ \<Rightarrow> 0)"

definition numeric_at :: "(string \<rightharpoonup> jsval) \<Rightarrow> string \<Rightarrow> bool" where
  "numeric_at counts k = (case counts k of None \<Rightarrow> True | Some (VNum n) \<Rightarrow> True | _ \<Rightarrow> False)"

definition inherited :: "string \<Rightarrow> bool" where
  "inherited k = (k = ''__proto__'' \<or> k = ''constructor'' \<or> k \<in> set prototype_methods)"

definition in_range :: "real \<Rightarrow> real \<Rightarrow> jsnum \<Rightarrow> bool" where
  "in_range lo hi v = (case v of Fin x \<Rightarrow> lo \<le> x \<and> x < hi | _ \<Rightarrow> False)"

definition at_least :: "real \<Rightarrow> jsnum \<Rightarrow> bool" where
  "at_least lo v = (case v of Fin x \<Rightarrow> lo \<le> x | _ \<Rightarrow> False)"

subsection \<open>Sample uploads\<close>

text \<open>
  The texts of four small CSV files, for evaluating the page on them. \<open>LF\<close> and \<open>CR\<close> are
  the line feed and the carriage return.
\<close>

definition LF :: string where "LF = [CHR 0x0A]"

definition CR :: string where "CR = [CHR 0x0D]"

definition upload_mixed :: string where
  "upload_mixed = ''koi_period,status'' @ LF @ ''12,confirmed'' @ LF @ ''n/a,Candidate''"

definition upload_other :: string where
  "upload_other = ''koi_period,status'' @ LF @ ''99,confirmed'' @ LF @ ''5,Candidate''"

definition upload_gaps :: string where
  "upload_gaps = ''koi_period,status'' @ CR @ LF @ ''12,confirmed'' @ CR @ LF @ LF
                 @ '','' @ LF @ ''7''"

definition upload_inherited :: string where
  "upload_inherited = ''koi_period,status'' @ LF @ ''12,__proto__'' @ LF @ ''7,constructor''"

definition upload_blank_period :: string where
  "upload_blank_period = ''koi_period,status'' @ LF @ '',candidate''"

section \<open>The explanation contract: \<open>focusRank\<close>\<close>

text \<open>
  Modelled from the spec: \<open>focusRank\<close> (spec 4.4) belongs to the training backend, which is
  not among the sources; the README quotes its core (keep the rows of the importance table
  whose feature is one of the six, sort them by importance, descending). In the spec's
  words it "filters \<open>fullRanking\<close> to exactly the focus-feature set and re-sorts by importance
  descending; ties broken by the Schema's focus-feature declaration order", and it "fails
  with \<open>MissingFocusFeature\<close> if a declared focus feature was dropped". Importance values
  are only compared, never computed with: any linearly ordered type stands for them.
\<close>

datatype error = MissingFocusFeature string

definition declared_at :: "string list \<Rightarrow> string \<Rightarrow> nat" where
  "declared_at focusFeatures f = length (takeWhile (\<lambda>g. g \<noteq> f) focusFeatures)"

definition ranks_before ::
  "string list \<Rightarrow> string \<times> 'v::linorder \<Rightarrow> string \<times> 'v \<Rightarrow> bool" where
  "ranks_before focusFeatures a b =
     (snd b < snd a
      \<or> (snd a = snd b \<and> declared_at focusFeatures (fst a) \<le> declared_at focusFeatures (fst b)))"

fun place :: "string list \<Rightarrow> string \<times> 'v::linorder \<Rightarrow> (string \<times> 'v) list \<Rightarrow> (string \<times> 'v) list" where
  "place focusFeatures a [] = [a]"
| "place focusFeatures a (b # bs) =
     (if ranks_before focusFeatures a b then a # b # bs else b # place focusFeatures a bs)"

definition focusRank ::
  "(string \<times> 'v::linorder) list \<Rightarrow> string list \<Rightarrow> error + (string \<times> 'v) list" where
  "focusRank fullRanking focusFeatures =
     (case filter (\<lambda>f. f \<notin> set (map fst fullRanking)) focusFeatures of
        missing # _ \<Rightarrow> Inl (MissingFocusFeature missing)
      | [] \<Rightarrow> Inr (foldr (place focusFeatures)
                    (filter (\<lambda>p. fst p \<in> set focusFeatures) fullRanking) []))"

section \<open>Properties of the mission data\<close>

lemma stated_rows_values:
  "stated_rows ''4,004 rows'' = 4004"
  "stated_rows ''7,704 rows'' = 7704"
  "stated_rows ''9,565 rows'' = 9565"
  by (simp_all add: stated_rows_def digit_val_def)

lemma feature_names_of_spec:
  "map feature_name spec_features =
     [''koi_model_snr'', ''koi_depth'', ''koi_prad'', ''koi_teq'', ''koi_duration'',
      ''koi_period'']"
  by (simp add: spec_features_def feature_name_def)

lemma evaluate_accuracy_bounds:
  assumes "evaluate_accuracy predicted actual = Some a"
  shows "0 \<le> a \<and> a \<le> 1"
proof -
  from assms have ne: "actual \<noteq> []" and len: "length predicted = length actual"
    and a: "a = real (length (filter (\<lambda>(p, t). p = t) (zip predicted actual)))
                / real (length actual)"
    by (auto simp: evaluate_accuracy_def split: if_splits)
  have "length (filter (\<lambda>(p, t). p = t) (zip predicted actual)) \<le> length (zip predicted actual)"
    by (rule length_filter_le)
  also have "\<dots> = length actual" using len by simp
  finally have "real (length (filter (\<lambda>(p, t). p = t) (zip predicted actual)))
                  \<le> real (length actual)" by simp
  moreover have "0 < real (length actual)" using ne by simp
  ultimately show ?thesis unfolding a by simp
qed

text \<open>
  C2 (as stated, refuted). The claim puts every exposed accuracy figure in [0,1]. The
  accuracy the \<open>models\<close> table gives for K2 is 94.2: a percentage, above 1.
\<close>

theorem C2_accuracy_unit_interval_counterexample:
  "\<not> (0 \<le> accuracy K2_info \<and> accuracy K2_info \<le> 1)
   \<and> map_of models ''K2'' = Some K2_info"
  by (simp add: K2_info_def models_def)

text \<open>
  C2 (amended). The accuracy of an evaluation report, the fraction of exact label matches,
  lies in [0,1] whenever it is defined. The per-mission accuracy figures of \<open>models\<close> and of
  \<open>modelSpecifications\<close> are percentages: each lies in [0,100] and above 1, and the two
  tables give the same figure for the same mission. The other exposed scores (F1,
  precision, recall) lie in [0,1].
\<close>

theorem C2_accuracy_ranges:
  "(\<forall>predicted actual a. evaluate_accuracy predicted (actual :: 'l list) = Some a
        \<longrightarrow> 0 \<le> a \<and> a \<le> 1)
   \<and> (\<forall>(k, m) \<in> set models.
        1 < accuracy m \<and> accuracy m \<le> 100 \<and> 0 \<le> f1Score m \<and> f1Score m \<le> 1)
   \<and> (\<forall>(k, s) \<in> set modelSpecifications.
        1 < metrics_accuracy (metrics s) \<and> metrics_accuracy (metrics s) \<le> 100
        \<and> 0 \<le> precision (metrics s) \<and> precision (metrics s) \<le> 1
        \<and> 0 \<le> recall (metrics s) \<and> recall (metrics s) \<le> 1
        \<and> 0 \<le> metrics_f1Score (metrics s) \<and> metrics_f1Score (metrics s) \<le> 1
        \<and> (\<exists>m. map_of models k = Some m \<and> accuracy m = metrics_accuracy (metrics s)))"
proof (intro conjI)
  show "\<forall>predicted actual a. evaluate_accuracy predicted (actual :: 'l list) = Some a
          \<longrightarrow> 0 \<le> a \<and> a \<le> 1"
    using evaluate_accuracy_bounds by blast
next
  show "\<forall>(k, m) \<in> set models.
          1 < accuracy m \<and> accuracy m \<le> 100 \<and> 0 \<le> f1Score m \<and> f1Score m \<le> 1"
    by (simp add: models_def K2_info_def TESS_info_def Kepler_info_def)
next
  show "\<forall>(k, s) \<in> set modelSpecifications.
        1 < metrics_accuracy (metrics s) \<and> metrics_accuracy (metrics s) \<le> 100
        \<and> 0 \<le> precision (metrics s) \<and> precision (metrics s) \<le> 1
        \<and> 0 \<le> recall (metrics s) \<and> recall (metrics s) \<le> 1
        \<and> 0 \<le> metrics_f1Score (metrics s) \<and> metrics_f1Score (metrics s) \<le> 1
        \<and> (\<exists>m. map_of models k = Some m \<and> accuracy m = metrics_accuracy (metrics s))"
    by (simp add: modelSpecifications_def K2_spec_def TESS_spec_def Kepler_spec_def
        models_def K2_info_def TESS_info_def Kepler_info_def)
qed

theorem C2_accuracy_ranges_witness:
  "evaluate_accuracy [True, False, True, True] [True, True, True, False] = Some (1 / 2)
   \<and> (0::real) \<le> 1 / 2 \<and> (1 / 2 :: real) \<le> 1
   \<and> (''TESS'', TESS_info) \<in> set models
   \<and> 1 < accuracy TESS_info \<and> accuracy TESS_info \<le> 100
   \<and> (''TESS'', TESS_spec) \<in> set modelSpecifications
   \<and> metrics_accuracy (metrics TESS_spec) = accuracy TESS_info"
proof -
  have e: "evaluate_accuracy [True, False, True, True] [True, True, True, False] = Some (1 / 2)"
    by (simp add: evaluate_accuracy_def)
  have m: "(''TESS'', TESS_info) \<in> set models"
    by (simp add: models_def)
  have s: "(''TESS'', TESS_spec) \<in> set modelSpecifications"
    by (simp add: modelSpecifications_def)
  have v: "metrics_accuracy (metrics TESS_spec) = accuracy TESS_info"
    by (simp add: TESS_spec_def TESS_info_def)
  from C2_accuracy_ranges [where ?'l = bool] e m s v show ?thesis
    by fastforce
qed

text \<open>
  C3 (as stated, refuted). The claim asks for a 3x3 matrix whose entries sum to 0.2 of the
  stated row count. The K2 matrix has two rows, and five times the sum of its entries
  (17000) is not the 4004 rows the same entry states.
\<close>

theorem C3_confusion_matrix_counterexample:
  "length (confusionMatrix K2_spec) \<noteq> 3
   \<and> 5 * matrix_total (confusionMatrix K2_spec)
       \<noteq> int (stated_rows (size_str (dataset K2_spec)))
   \<and> map_of modelSpecifications ''K2'' = Some K2_spec"
  by (simp add: K2_spec_def matrix_total_def stated_rows_values modelSpecifications_def)

text \<open>
  C3 (amended). For every mission's model specification the confusion matrix is a square
  2x2 matrix of non-negative integers; the sum of its entries is larger than the stated
  dataset row count, so it is not the size of a 0.2 test partition of that dataset.
\<close>

theorem C3_confusion_matrix_shape:
  assumes "(k, s) \<in> set modelSpecifications"
  shows "length (confusionMatrix s) = 2
         \<and> (\<forall>row \<in> set (confusionMatrix s). length row = 2 \<and> (\<forall>e \<in> set row. 0 \<le> e))
         \<and> int (stated_rows (size_str (dataset s))) < matrix_total (confusionMatrix s)"
  using assms
  by (auto simp: modelSpecifications_def K2_spec_def TESS_spec_def Kepler_spec_def
      matrix_total_def stated_rows_values)

theorem C3_confusion_matrix_shape_witness:
  "(''Kepler'', Kepler_spec) \<in> set modelSpecifications
   \<and> length (confusionMatrix Kepler_spec) = 2
   \<and> matrix_total (confusionMatrix Kepler_spec) = 35000
   \<and> stated_rows (size_str (dataset Kepler_spec)) = 9565"
proof -
  have h: "(''Kepler'', Kepler_spec) \<in> set modelSpecifications"
    by (simp add: modelSpecifications_def)
  from C3_confusion_matrix_shape [OF h] h show ?thesis
    by (simp add: Kepler_spec_def matrix_total_def stated_rows_values)
qed

text \<open>
  C4. The presentation feature set has exactly six members, the six names of the claim;
  the feature list of every mission specification names exactly these six (each followed
  by a gloss), and the Explorer's required columns are these six followed by \<open>status\<close>.
\<close>

theorem C4_six_focus_features:
  "set forced = {''koi_model_snr'', ''koi_depth'', ''koi_prad'', ''koi_teq'',
                 ''koi_duration'', ''koi_period''}
   \<and> distinct forced \<and> length forced = 6
   \<and> (\<forall>(k, s) \<in> set modelSpecifications.
        length (features (dataset s)) = 6
        \<and> set (map feature_name (features (dataset s))) = set forced
        \<and> map feature_name (features (dataset s)) @ [''status''] = requiredCols)
   \<and> set requiredCols = set forced \<union> {''status''}
   \<and> length requiredCols = 7"
proof -
  have n: "map feature_name spec_features @ [''status''] = requiredCols"
    by (simp add: feature_names_of_spec requiredCols_def)
  have f: "set (map feature_name spec_features) = set forced"
    unfolding feature_names_of_spec by (auto simp: forced_def)
  have l: "length spec_features = 6"
    by (simp add: spec_features_def)
  have "\<forall>(k, s) \<in> set modelSpecifications.
        length (features (dataset s)) = 6
        \<and> set (map feature_name (features (dataset s))) = set forced
        \<and> map feature_name (features (dataset s)) @ [''status''] = requiredCols"
    using n f l
    by (simp add: modelSpecifications_def K2_spec_def TESS_spec_def Kepler_spec_def)
  moreover have "set forced = {''koi_model_snr'', ''koi_depth'', ''koi_prad'', ''koi_teq'',
                 ''koi_duration'', ''koi_period''}"
    by (auto simp: forced_def)
  moreover have "distinct forced \<and> length forced = 6"
    by (simp add: forced_def)
  moreover have "set requiredCols = set forced \<union> {''status''}"
    by (auto simp: requiredCols_def forced_def)
  moreover have "length requiredCols = 7"
    by (simp add: requiredCols_def)
  ultimately show ?thesis by blast
qed

theorem C4_six_focus_features_witness:
  "(''K2'', K2_spec) \<in> set modelSpecifications
   \<and> map feature_name (features (dataset K2_spec)) @ [''status''] = requiredCols"
proof -
  have h: "(''K2'', K2_spec) \<in> set modelSpecifications"
    by (simp add: modelSpecifications_def)
  from C4_six_focus_features h show ?thesis
    by fastforce
qed

section \<open>Properties of the Explorer page\<close>

lemma zip_upt_snoc:
  "zip (hs @ [h]) [0 ..< length (hs @ [h])] = zip hs [0 ..< length hs] @ [(h, length hs)]"
  by simp

lemma fold_set_prop_lookup:
  assumes "distinct hs" "i < length hs" "hs ! i \<noteq> ''__proto__''"
  shows "foldl (\<lambda>obj (h, j). set_prop obj h (f j)) Map.empty (zip hs [0 ..< length hs]) (hs ! i)
         = Some (f i)"
  using assms
proof (induction hs arbitrary: i rule: rev_induct)
  case Nil
  then show ?case by simp
next
  case (snoc h hs)
  let ?obj = "foldl (\<lambda>obj (h, j). set_prop obj h (f j)) Map.empty (zip hs [0 ..< length hs])"
  have step: "foldl (\<lambda>obj (h, j). set_prop obj h (f j)) Map.empty
                (zip (hs @ [h]) [0 ..< length (hs @ [h])]) = set_prop ?obj h (f (length hs))"
    unfolding zip_upt_snoc by simp
  show ?case
  proof (cases "i = length hs")
    case True
    with snoc.prems show ?thesis unfolding step by (simp add: set_prop_def)
  next
    case False
    with snoc.prems have i: "i < length hs" by simp
    then have eq: "(hs @ [h]) ! i = hs ! i" by (simp add: nth_append)
    from snoc.prems i have ne: "hs ! i \<noteq> h" by auto
    from snoc.prems have "distinct hs" by simp
    moreover from snoc.prems eq have "hs ! i \<noteq> ''__proto__''" by simp
    ultimately have "?obj (hs ! i) = Some (f i)" using snoc.IH i by blast
    then show ?thesis unfolding step eq using ne by (simp add: set_prop_def)
  qed
qed


lemma parse_row_lookup:
  assumes "distinct headers" "i < length headers" "headers ! i \<noteq> ''__proto__''"
  shows "parse_row lit headers line (headers ! i)
         = Some (cell_value lit (trim (cell_at (split_on (CHR '','') line) i)))"
  unfolding parse_row_def Let_def
  by (rule fold_set_prop_lookup [OF assms])


lemma handleFile_rows:
  assumes "nonempty_lines text = hdr # rest" "rest \<noteq> []"
  shows "handleFile lit text = map (parse_row lit (map trim (split_on (CHR '','') hdr))) rest"
proof -
  from assms have "\<not> length (nonempty_lines text) < 2"
    by (cases rest) simp_all
  then show ?thesis using assms(1) by (simp add: handleFile_def Let_def)
qed


lemmas explorer_eval =
  handleFile_def nonempty_lines_def parse_row_def cell_value_def cell_at_def Number_str_def
  trim_def is_space_def set_prop_def dec_lit_def digit_val_def LF_def CR_def

lemmas counts_eval =
  statusCounts_def usingUploaded_def count_status_def get_prop_def set_prop_def plus_one_def
  status_key_def toLowerCase_def initial_counts_def

lemma upload_mixed_rows:
  "handleFile dec_lit upload_mixed
   = [[''koi_period'' \<mapsto> Num (Fin 12), ''status'' \<mapsto> Str ''confirmed''],
      [''koi_period'' \<mapsto> Str ''n/a'', ''status'' \<mapsto> Str ''Candidate'']]"
  by (simp add: upload_mixed_def explorer_eval)

lemma upload_other_rows:
  "handleFile dec_lit upload_other
   = [[''koi_period'' \<mapsto> Num (Fin 99), ''status'' \<mapsto> Str ''confirmed''],
      [''koi_period'' \<mapsto> Num (Fin 5), ''status'' \<mapsto> Str ''Candidate'']]"
  by (simp add: upload_other_def explorer_eval)


lemma upload_gaps_rows:
  "handleFile dec_lit upload_gaps
   = [[''koi_period'' \<mapsto> Num (Fin 12), ''status'' \<mapsto> Str ''confirmed''],
      [''koi_period'' \<mapsto> Str [], ''status'' \<mapsto> Str []],
      [''koi_period'' \<mapsto> Num (Fin 7), ''status'' \<mapsto> Str []]]"
  by (simp add: upload_gaps_def explorer_eval)

lemma upload_inherited_rows:
  "handleFile dec_lit upload_inherited
   = [[''koi_period'' \<mapsto> Num (Fin 12), ''status'' \<mapsto> Str ''__proto__''],
      [''koi_period'' \<mapsto> Num (Fin 7), ''status'' \<mapsto> Str ''constructor'']]"
  by (simp add: upload_inherited_def explorer_eval)

lemma upload_blank_period_rows:
  "handleFile dec_lit upload_blank_period
   = [[''koi_period'' \<mapsto> Str [], ''status'' \<mapsto> Str ''candidate'']]"
  by (simp add: upload_blank_period_def explorer_eval)

text \<open>
  C5 (as stated, refuted). The claim has the kind of a column's values fixed per column.
  In the upload \<open>upload_mixed\<close> the column \<open>koi_period\<close> holds a number in the first record
  and a string in the second: the parser decides per cell.
\<close>

theorem C5_per_column_counterexample:
  "(handleFile dec_lit upload_mixed ! 0) ''koi_period'' = Some (Num (Fin 12))
   \<and> (handleFile dec_lit upload_mixed ! 1) ''koi_period'' = Some (Str ''n/a'')"
  by (simp add: upload_mixed_rows)

text \<open>
  C5 (amended). The Explorer's parser decides number or text for each cell on its own, at
  every upload: with distinct column names, the value a record holds for a column is
  \<open>cell_value\<close> of the trimmed text of that record's own cell, and \<open>cell_value\<close> makes a
  number of exactly the non-empty texts that \<open>Number\<close> does not read as NaN and keeps every
  other text as a string. No other cell of the column and no state from an earlier upload
  enters the decision.
\<close>

theorem C5_cell_classified_alone:
  assumes "nonempty_lines text = hdr # rest"
    and "headers = map trim (split_on (CHR '','') hdr)"
    and "distinct headers" and "i < length headers" and "headers ! i \<noteq> ''__proto__''"
    and "k < length rest"
  shows "(handleFile lit text ! k) (headers ! i)
           = Some (cell_value lit (trim (cell_at (split_on (CHR '','') (rest ! k)) i)))
         \<and> (\<forall>raw. cell_value lit raw
               = (if raw \<noteq> [] \<and> Number_str lit raw \<noteq> NaN then Num (Number_str lit raw)
                  else Str raw))"
proof -
  from assms(6) have "rest \<noteq> []" by auto
  from handleFile_rows [OF assms(1) this]
  have "handleFile lit text ! k = parse_row lit headers (rest ! k)"
    using assms(2,6) by simp
  then show ?thesis
    using parse_row_lookup [OF assms(3,4,5)] by (simp add: cell_value_def Let_def)
qed

theorem C5_cell_classified_alone_witness:
  "nonempty_lines upload_mixed = [''koi_period,status'', ''12,confirmed'', ''n/a,Candidate'']
   \<and> distinct [''koi_period'', ''status'']
   \<and> (handleFile dec_lit upload_mixed ! 1) ''koi_period''
       = Some (cell_value dec_lit ''n/a'')
   \<and> cell_value dec_lit ''n/a'' = Str ''n/a''
   \<and> cell_value dec_lit ''12'' = Num (Fin 12)"
proof -
  have l: "nonempty_lines upload_mixed
             = ''koi_period,status'' # [''12,confirmed'', ''n/a,Candidate'']"
    by (simp add: upload_mixed_def nonempty_lines_def LF_def)
  have h: "[''koi_period'', ''status''] = map trim (split_on (CHR '','') ''koi_period,status'')"
    by (simp add: trim_def is_space_def)
  have d: "distinct [''koi_period'', ''status'']" by simp
  have i: "(0::nat) < length [''koi_period'', ''status'']" by simp
  have p: "[''koi_period'', ''status''] ! 0 \<noteq> ''__proto__''" by simp
  have k: "(1::nat) < length [''12,confirmed'', ''n/a,Candidate'']" by simp
  have c: "trim (cell_at (split_on (CHR '','') ([''12,confirmed'', ''n/a,Candidate''] ! 1)) 0)
             = ''n/a''"
    by (simp add: cell_at_def trim_def is_space_def)
  have v: "cell_value dec_lit ''n/a'' = Str ''n/a'' \<and> cell_value dec_lit ''12'' = Num (Fin 12)"
    by (simp add: cell_value_def Number_str_def trim_def is_space_def dec_lit_def digit_val_def)
  from C5_cell_classified_alone [OF l h d i p k, of dec_lit] c l d v show ?thesis
    by simp
qed


lemma statusCounts_by_keys:
  "statusCounts numstr customRows
   = (if customRows = [] then initial_counts
      else foldl count_status initial_counts (map (status_key numstr) customRows))"
  by (simp add: statusCounts_def usingUploaded_def foldl_map)


text \<open>
  C7. Two uploads whose records agree row by row on the \<open>status\<close> property (and so have the
  same number of rows) get the same status counts and the same distribution data, whatever
  their other columns hold.
\<close>

theorem C7_counts_depend_on_status_only:
  assumes "map (\<lambda>r. r ''status'') rows1 = map (\<lambda>r. r ''status'') rows2"
  shows "statusCounts numstr rows1 = statusCounts numstr rows2
         \<and> distributionData numstr rows1 = distributionData numstr rows2"
proof -
  let ?key = "\<lambda>v. toLowerCase (case v of None \<Rightarrow> ''unknown'' | Some (Str s) \<Rightarrow> s
                                 | Some (Num n) \<Rightarrow> numstr n)"
  have k: "status_key numstr = ?key \<circ> (\<lambda>r. r ''status'')"
    by (rule ext) (simp add: status_key_def)
  have "map (status_key numstr) rows1 = map ?key (map (\<lambda>r. r ''status'') rows1)"
    unfolding k by simp
  also have "\<dots> = map ?key (map (\<lambda>r. r ''status'') rows2)"
    using assms by simp
  also have "\<dots> = map (status_key numstr) rows2"
    unfolding k by simp
  finally have keys: "map (status_key numstr) rows1 = map (status_key numstr) rows2" .
  from assms have "length rows1 = length rows2"
    by (metis length_map)
  then have e: "(rows1 = []) = (rows2 = [])" by auto
  have c: "statusCounts numstr rows1 = statusCounts numstr rows2"
    unfolding statusCounts_by_keys keys e by simp
  have u: "usingUploaded rows1 = usingUploaded rows2"
    using e by (simp add: usingUploaded_def)
  show ?thesis using c u by (simp add: distributionData_def)
qed

theorem C7_counts_depend_on_status_only_witness:
  "map (\<lambda>r. r ''status'') (handleFile dec_lit upload_mixed)
     = map (\<lambda>r. r ''status'') (handleFile dec_lit upload_other)
   \<and> (handleFile dec_lit upload_mixed ! 1) ''koi_period''
       \<noteq> (handleFile dec_lit upload_other ! 1) ''koi_period''
   \<and> statusCounts dec_str (handleFile dec_lit upload_mixed)
       = statusCounts dec_str (handleFile dec_lit upload_other)
   \<and> distributionData dec_str (handleFile dec_lit upload_mixed)
       = distributionData dec_str (handleFile dec_lit upload_other)
   \<and> statusCounts dec_str (handleFile dec_lit upload_mixed) ''candidate'' = Some (VNum 1)"
proof -
  have h: "map (\<lambda>r. r ''status'') (handleFile dec_lit upload_mixed)
             = map (\<lambda>r. r ''status'') (handleFile dec_lit upload_other)"
    by (simp add: upload_mixed_rows upload_other_rows)
  have d: "(handleFile dec_lit upload_mixed ! 1) ''koi_period''
             \<noteq> (handleFile dec_lit upload_other ! 1) ''koi_period''"
    by (simp add: upload_mixed_rows upload_other_rows)
  have c: "statusCounts dec_str (handleFile dec_lit upload_mixed) ''candidate'' = Some (VNum 1)"
    by (simp add: upload_mixed_rows counts_eval)
  from C7_counts_depend_on_status_only [OF h, of dec_str] h d c show ?thesis
    by simp
qed

subsection \<open>Status counts\<close>

text \<open>
  What \<open>statusCounts\<close> does outside the inherited names: a key that is not found on
  \<open>Object.prototype\<close> holds the number of records with that status key. A lower-cased
  status is never one of the method names, which all have a capital letter, so the two
  keys left are \<open>__proto__\<close> and \<open>constructor\<close>. The rendered distribution sums to the
  number of records whose key is one of the four displayed ones, which can be less than the
  number of records.
\<close>

lemma count_status_other:
  "s \<noteq> k \<Longrightarrow> count_status counts s k = counts k"
  by (simp add: count_status_def set_prop_def)

lemma count_status_same:
  assumes "\<not> inherited k" "numeric_at counts k"
  shows "count_status counts k k = Some (VNum (count_at counts k + 1))"
  using assms
  by (auto simp: count_status_def set_prop_def get_prop_def plus_one_def inherited_def
      numeric_at_def count_at_def split: option.splits jsval.splits)

lemma count_status_fold:
  assumes "\<not> inherited k" "numeric_at counts k"
  shows "numeric_at (foldl count_status counts ks) k
         \<and> count_at (foldl count_status counts ks) k = count_at counts k + count_list ks k
         \<and> (foldl count_status counts ks k = None \<longleftrightarrow> counts k = None \<and> k \<notin> set ks)"
  using assms(2)
proof (induction ks arbitrary: counts)
  case Nil
  then show ?case by simp
next
  case (Cons s ks)
  show ?case
  proof (cases "s = k")
    case True
    have st: "count_status counts k k = Some (VNum (count_at counts k + 1))"
      by (rule count_status_same [OF assms(1) Cons.prems])
    then have n: "numeric_at (count_status counts k) k"
      and c: "count_at (count_status counts k) k = count_at counts k + 1"
      by (simp_all add: numeric_at_def count_at_def)
    from Cons.IH [OF n] c st True show ?thesis by simp
  next
    case False
    then have o: "count_status counts s k = counts k" by (rule count_status_other)
    then have n: "numeric_at (count_status counts s) k"
      and c: "count_at (count_status counts s) k = count_at counts k"
      using Cons.prems by (simp_all add: numeric_at_def count_at_def)
    from Cons.IH [OF n] c o False show ?thesis by simp
  qed
qed

lemma count_status_proto:
  "foldl count_status counts ks ''__proto__'' = counts ''__proto__''"
  by (induction ks arbitrary: counts) (simp_all add: count_status_def set_prop_def)

lemma lower_not_upper:
  "(case map_of (zip ''ABCDEFGHIJKLMNOPQRSTUVWXYZ'' ''abcdefghijklmnopqrstuvwxyz'') c of
      None \<Rightarrow> c | Some l \<Rightarrow> l) \<notin> set ''ABCDEFGHIJKLMNOPQRSTUVWXYZ''"
  by (simp split: option.splits)

lemma toLowerCase_no_upper:
  "c \<in> set (toLowerCase s) \<Longrightarrow> c \<notin> set ''ABCDEFGHIJKLMNOPQRSTUVWXYZ''"
  unfolding toLowerCase_def using lower_not_upper by (auto simp del: set_simps map_of.simps zip_Cons_Cons)

lemma toLowerCase_not_method: "toLowerCase s \<notin> set prototype_methods"
proof
  assume m: "toLowerCase s \<in> set prototype_methods"
  have "\<forall>k \<in> set prototype_methods. \<exists>c \<in> set k. c \<in> set ''ABCDEFGHIJKLMNOPQRSTUVWXYZ''"
    by (simp add: prototype_methods_def)
  with m obtain c where "c \<in> set (toLowerCase s)" "c \<in> set ''ABCDEFGHIJKLMNOPQRSTUVWXYZ''"
    by blast
  then show False using toLowerCase_no_upper by blast
qed

lemma status_key_inherited:
  "inherited (status_key numstr r)
   \<longleftrightarrow> status_key numstr r = ''__proto__'' \<or> status_key numstr r = ''constructor''"
  unfolding inherited_def using toLowerCase_not_method [of "case r ''status'' of None \<Rightarrow> ''unknown''
                  | Some (Str s) \<Rightarrow> s
                  | Some (Num n) \<Rightarrow> numstr n"]
  by (simp add: status_key_def)

lemma statusCounts_count:
  assumes "k \<noteq> ''__proto__''" "k \<noteq> ''constructor''" "k \<notin> set prototype_methods"
  shows "count_at (statusCounts numstr customRows) k
           = length (filter (\<lambda>r. status_key numstr r = k) customRows)
         \<and> numeric_at (statusCounts numstr customRows) k"
proof -
  have i: "\<not> inherited k" using assms by (simp add: inherited_def)
  have n: "numeric_at initial_counts k"
    by (simp add: numeric_at_def initial_counts_def)
  have z: "count_at initial_counts k = 0"
    by (simp add: count_at_def initial_counts_def)
  have l: "count_list (map (status_key numstr) customRows) k
             = length (filter (\<lambda>r. status_key numstr r = k) customRows)"
    by (induction customRows) simp_all
  show ?thesis
  proof (cases "customRows = []")
    case True
    then show ?thesis using n z by (simp add: statusCounts_by_keys)
  next
    case False
    then show ?thesis
      using count_status_fold [OF i n, of "map (status_key numstr) customRows"] z l
      by (simp add: statusCounts_by_keys)
  qed
qed

lemma statusCounts_proto: "statusCounts numstr customRows ''__proto__'' = None"
  by (simp add: statusCounts_by_keys count_status_proto) (simp add: initial_counts_def)

lemma get_prop_count:
  assumes "numeric_at counts k" "counts k \<noteq> None"
  shows "get_prop counts k = VNum (count_at counts k)"
proof -
  from assms(2) obtain v where v: "counts k = Some v" by auto
  with assms(1) show ?thesis
    by (cases v) (simp_all add: get_prop_def numeric_at_def count_at_def)
qed

lemma four_keys_total:
  "length (filter (\<lambda>r. f r = ''confirmed'') rs) + length (filter (\<lambda>r. f r = ''candidate'') rs)
   + length (filter (\<lambda>r. f r = ''false_positive'') rs) + length (filter (\<lambda>r. f r = ''unknown'') rs)
   = length (filter (\<lambda>r. f r \<in> {''confirmed'', ''candidate'', ''false_positive'', ''unknown''}) rs)"
  by (induction rs) auto

lemma chart_total_positive:
  "chart_total (filter (\<lambda>d. positive (slice_value d)) ds) = chart_total ds"
proof (induction ds)
  case Nil
  then show ?case by (simp add: chart_total_def)
next
  case (Cons d ds)
  then show ?case
    by (cases "slice_value d") (simp_all add: chart_total_def positive_def)
qed

lemma distribution_total:
  "chart_total (distributionData numstr customRows)
   = length (filter (\<lambda>r. status_key numstr r
                          \<in> {''confirmed'', ''candidate'', ''false_positive'', ''unknown''})
               customRows)"
proof (cases "customRows = []")
  case True
  then show ?thesis by (simp add: distributionData_def usingUploaded_def chart_total_def)
next
  case False
  let ?c = "statusCounts numstr customRows"
  let ?n = "\<lambda>k. length (filter (\<lambda>r. status_key numstr r = k) customRows)"
  have v: "get_prop ?c k = VNum (?n k)"
    if "k \<in> {''confirmed'', ''candidate'', ''false_positive'', ''unknown''}" for k
  proof -
    from that have a: "k \<noteq> ''__proto__''" "k \<noteq> ''constructor''" "k \<notin> set prototype_methods"
      by (auto simp: prototype_methods_def)
    have i: "\<not> inherited k" using a by (simp add: inherited_def)
    have n: "numeric_at initial_counts k" using that
      by (auto simp: numeric_at_def initial_counts_def)
    from that have "initial_counts k \<noteq> None" by (auto simp: initial_counts_def)
    then have "?c k \<noteq> None"
      using count_status_fold [OF i n, of "map (status_key numstr) customRows"] False
      by (simp add: statusCounts_by_keys)
    with statusCounts_count [OF a, of numstr customRows] get_prop_count show ?thesis by simp
  qed
  let ?four = "[\<lparr> slice_name = ''Confirmed'', slice_value = get_prop ?c ''confirmed'',
                    slice_color = confirmed DEFAULT_COLORS \<rparr>,
                 \<lparr> slice_name = ''Candidate'', slice_value = get_prop ?c ''candidate'',
                    slice_color = candidate DEFAULT_COLORS \<rparr>,
                 \<lparr> slice_name = ''False Positive'',
                    slice_value = get_prop ?c ''false_positive'',
                    slice_color = false_positive DEFAULT_COLORS \<rparr>,
                 \<lparr> slice_name = ''Unknown'', slice_value = get_prop ?c ''unknown'',
                    slice_color = unknown DEFAULT_COLORS \<rparr>]"
  have "distributionData numstr customRows = filter (\<lambda>d. positive (slice_value d)) ?four"
    using False by (simp add: distributionData_def usingUploaded_def Let_def del: filter.simps)
  then have "chart_total (distributionData numstr customRows) = chart_total ?four"
    by (simp only: chart_total_positive)
  also have "\<dots> = ?n ''confirmed'' + ?n ''candidate'' + ?n ''false_positive'' + ?n ''unknown''"
    by (simp add: chart_total_def v)
  finally show ?thesis unfolding four_keys_total .
qed

lemma distribution_total_le:
  "chart_total (distributionData numstr customRows) \<le> length customRows"
  unfolding distribution_total by (rule length_filter_le)

lemma distribution_total_less_example:
  "chart_total (distributionData dec_str (handleFile dec_lit upload_gaps)) = 1
   \<and> length (handleFile dec_lit upload_gaps) = 3
   \<and> statusCounts dec_str (handleFile dec_lit upload_gaps) [] = Some (VNum 2)"
  by (simp add: upload_gaps_rows distributionData_def chart_total_def positive_def counts_eval
      prototype_methods_def)

text \<open>
  C8 (the code at a failing input). The claim has every record counted under exactly one
  key. The upload \<open>upload_inherited\<close> has two records, with the status texts \<open>__proto__\<close>
  and \<open>constructor\<close>. Both names are found on \<open>Object.prototype\<close>, so \<open>counts[s] ?? 0\<close>
  is not 0 for them: the first record is counted under no key (the assignment to
  \<open>__proto__\<close> stores nothing, and the four initial counts stay 0), and the second leaves a
  text under \<open>constructor\<close>, not a count.
\<close>

theorem C8_inherited_status_keys:
  "length (handleFile dec_lit upload_inherited) = 2
   \<and> map (status_key dec_str) (handleFile dec_lit upload_inherited)
       = [''__proto__'', ''constructor'']
   \<and> statusCounts dec_str (handleFile dec_lit upload_inherited)
       = initial_counts(''constructor'' \<mapsto> VText ''function Object() { [native code] }1'')
   \<and> statusCounts dec_str (handleFile dec_lit upload_inherited) ''__proto__'' = None"
  by (simp add: upload_inherited_rows counts_eval)

subsection \<open>Orbital-period bins\<close>

text \<open>
  What \<open>orbitalData\<close> counts: bin by bin, the records whose \<open>Number(koi_period)\<close> lies in
  the bin's interval. The five intervals are disjoint and cover the finite numbers from 0
  on, so the counts sum to the number of records whose \<open>Number(koi_period)\<close> is finite and
  at least 0. An empty cell is among them: \<open>Number\<close> of the empty string is 0.
\<close>

lemma bin_index:
  "findIndex (\<lambda>b. js_ge (Fin x) (bin_min b) \<and> js_less (Fin x) (bin_max b)) bins
   = (if x < 0 then - 1 else if x < 10 then 0 else if x < 50 then 1
      else if x < 100 then 2 else if x < 200 then 3 else 4)"
  by (simp add: bins_def js_ge_def)

lemma count_period_step:
  "count_period [(l0, a0), (l1, a1), (l2, a2), (l3, a3), (l4, a4)] v
   = [(l0, a0 + (if in_range 0 10 v then 1 else 0)),
      (l1, a1 + (if in_range 10 50 v then 1 else 0)),
      (l2, a2 + (if in_range 50 100 v then 1 else 0)),
      (l3, a3 + (if in_range 100 200 v then 1 else 0)),
      (l4, a4 + (if at_least 200 v then 1 else 0))]"
proof (cases v)
  case (Fin x)
  show ?thesis
    unfolding Fin count_period_def Let_def bin_index
    by (simp add: isFinite_def in_range_def at_least_def)
qed (simp_all add: count_period_def isFinite_def in_range_def at_least_def)

lemma count_period_fold:
  "foldl count_period [(l0, a0), (l1, a1), (l2, a2), (l3, a3), (l4, a4)] vs
   = [(l0, a0 + length (filter (in_range 0 10) vs)),
      (l1, a1 + length (filter (in_range 10 50) vs)),
      (l2, a2 + length (filter (in_range 50 100) vs)),
      (l3, a3 + length (filter (in_range 100 200) vs)),
      (l4, a4 + length (filter (at_least 200) vs))]"
proof (induction vs arbitrary: a0 a1 a2 a3 a4)
  case Nil
  then show ?case by simp
next
  case (Cons v vs)
  show ?case
    unfolding foldl_Cons count_period_step Cons.IH by simp
qed

lemma bins_partition:
  "length (filter (in_range 0 10) vs) + length (filter (in_range 10 50) vs)
   + length (filter (in_range 50 100) vs) + length (filter (in_range 100 200) vs)
   + length (filter (at_least 200) vs)
   = length (filter (at_least 0) vs)"
proof (induction vs)
  case Nil
  then show ?case by simp
next
  case (Cons v vs)
  then show ?case
    by (cases v) (auto simp: in_range_def at_least_def)
qed

lemma orbitalData_counts:
  assumes "customRows \<noteq> []"
  shows "orbitalData lit customRows
         = (let vs = map (\<lambda>r. to_number lit (r ''koi_period'')) customRows
            in [(''0-10d'', length (filter (in_range 0 10) vs)),
                (''10-50d'', length (filter (in_range 10 50) vs)),
                (''50-100d'', length (filter (in_range 50 100) vs)),
                (''100-200d'', length (filter (in_range 100 200) vs)),
                (''200+d'', length (filter (at_least 200) vs))])"
proof -
  have "orbitalData lit customRows
        = foldl count_period (map (\<lambda>b. (bin_label b, 0)) bins)
            (map (\<lambda>r. to_number lit (r ''koi_period'')) customRows)"
    using assms by (simp add: orbitalData_def usingUploaded_def foldl_map)
  also have "map (\<lambda>b. (bin_label b, 0::nat)) bins
             = [(''0-10d'', 0), (''10-50d'', 0), (''50-100d'', 0), (''100-200d'', 0), (''200+d'', 0)]"
    by (simp add: bins_def)
  finally show ?thesis unfolding count_period_fold Let_def by simp
qed

lemma orbitalData_total:
  assumes "customRows \<noteq> []"
  shows "sum_list (map snd (orbitalData lit customRows))
         = length (filter (\<lambda>r. at_least 0 (to_number lit (r ''koi_period''))) customRows)"
proof -
  have "sum_list (map snd (orbitalData lit customRows))
        = length (filter (at_least 0) (map (\<lambda>r. to_number lit (r ''koi_period'')) customRows))"
    unfolding orbitalData_counts [OF assms] Let_def
    using bins_partition [of "map (\<lambda>r. to_number lit (r ''koi_period'')) customRows"]
    by simp
  also have "\<dots> = length (filter (\<lambda>r. at_least 0 (to_number lit (r ''koi_period''))) customRows)"
    by (simp add: filter_map comp_def)
  finally show ?thesis .
qed

lemma blank_period_is_zero:
  "to_number lit (Some (Str [])) = Fin 0 \<and> at_least 0 (to_number lit (Some (Str [])))
   \<and> in_range 0 10 (to_number lit (Some (Str [])))"
  by (simp add: to_number_def Number_str_def trim_def at_least_def in_range_def)

text \<open>
  C9 (the code at a failing input). The claim has a record with a missing period counted
  in no bin. The one record of \<open>upload_blank_period\<close> has an empty \<open>koi_period\<close> cell, which
  \<open>handleFile\<close> keeps as the empty string; \<open>orbitalData\<close> reads it with \<open>Number\<close> as 0 and
  counts the record in the bin \<open>0-10d\<close>.
\<close>

theorem C9_blank_period_counted:
  "(handleFile dec_lit upload_blank_period ! 0) ''koi_period'' = Some (Str [])
   \<and> orbitalData dec_lit (handleFile dec_lit upload_blank_period)
       = [(''0-10d'', 1), (''10-50d'', 0), (''50-100d'', 0), (''100-200d'', 0), (''200+d'', 0)]"
  by (simp add: upload_blank_period_rows orbitalData_def usingUploaded_def count_period_def
      to_number_def Number_str_def trim_def isFinite_def bins_def js_ge_def)

section \<open>Properties of \<open>focusRank\<close>\<close>

lemma mset_place: "mset (place F a bs) = add_mset a (mset bs)"
  by (induction bs) simp_all

lemma mset_foldr_place: "mset (foldr (place F) xs []) = mset xs"
  by (induction xs) (simp_all add: mset_place)

lemma set_place: "set (place F a bs) = insert a (set bs)"
  using mset_place [of F a bs] by (metis set_mset_mset set_mset_add_mset_insert)

lemma ranks_before_total: "ranks_before F a b \<or> ranks_before F b a"
  unfolding ranks_before_def by (cases "snd a" "snd b" rule: linorder_cases) auto

lemma ranks_before_trans:
  "ranks_before F a b \<Longrightarrow> ranks_before F b c \<Longrightarrow> ranks_before F a c"
  unfolding ranks_before_def by auto

lemma sorted_place:
  "sorted_wrt (ranks_before F) bs \<Longrightarrow> sorted_wrt (ranks_before F) (place F a bs)"
proof (induction bs)
  case Nil
  then show ?case by simp
next
  case (Cons b bs)
  show ?case
  proof (cases "ranks_before F a b")
    case True
    have "\<forall>c \<in> set bs. ranks_before F a c"
      using Cons.prems True ranks_before_trans by fastforce
    with True Cons.prems show ?thesis by simp
  next
    case False
    then have ba: "ranks_before F b a" using ranks_before_total by blast
    from Cons have "sorted_wrt (ranks_before F) (place F a bs)" by simp
    moreover have "\<forall>c \<in> set (place F a bs). ranks_before F b c"
      using Cons.prems ba by (auto simp: set_place)
    ultimately show ?thesis using False by simp
  qed
qed

lemma sorted_foldr_place: "sorted_wrt (ranks_before F) (foldr (place F) xs [])"
  by (induction xs) (simp_all add: sorted_place)

lemma ranks_before_imp_ge: "ranks_before F a b \<Longrightarrow> snd b \<le> snd a"
  unfolding ranks_before_def by auto

lemma focusRank_missing:
  "\<not> set focusFeatures \<subseteq> fst ` set fullRanking \<Longrightarrow>
   \<exists>f. focusRank fullRanking focusFeatures = Inl (MissingFocusFeature f)
       \<and> f \<in> set focusFeatures \<and> f \<notin> fst ` set fullRanking"
proof -
  assume "\<not> set focusFeatures \<subseteq> fst ` set fullRanking"
  then have "filter (\<lambda>f. f \<notin> set (map fst fullRanking)) focusFeatures \<noteq> []"
    by (auto simp: filter_empty_conv)
  then obtain m ms where ms: "filter (\<lambda>f. f \<notin> set (map fst fullRanking)) focusFeatures = m # ms"
    by (cases "filter (\<lambda>f. f \<notin> set (map fst fullRanking)) focusFeatures") auto
  then have "m \<in> set (filter (\<lambda>f. f \<notin> set (map fst fullRanking)) focusFeatures)" by simp
  then have "m \<in> set focusFeatures \<and> m \<notin> fst ` set fullRanking" by auto
  moreover have "focusRank fullRanking focusFeatures = Inl (MissingFocusFeature m)"
    unfolding focusRank_def ms by simp
  ultimately show ?thesis by blast
qed

lemma focusRank_present:
  assumes "set focusFeatures \<subseteq> fst ` set fullRanking"
  shows "\<exists>ranked. focusRank fullRanking focusFeatures = Inr ranked
           \<and> mset ranked = mset (filter (\<lambda>p. fst p \<in> set focusFeatures) fullRanking)
           \<and> fst ` set ranked = set focusFeatures
           \<and> (\<forall>p \<in> set ranked. p \<in> set fullRanking)
           \<and> sorted_wrt (\<lambda>a b. snd b \<le> snd a) ranked
           \<and> sorted_wrt (ranks_before focusFeatures) ranked"
proof -
  let ?kept = "filter (\<lambda>p. fst p \<in> set focusFeatures) fullRanking"
  let ?ranked = "foldr (place focusFeatures) ?kept []"
  from assms have "filter (\<lambda>f. f \<notin> set (map fst fullRanking)) focusFeatures = []"
    by (auto simp: filter_empty_conv)
  then have r: "focusRank fullRanking focusFeatures = Inr ?ranked"
    by (simp add: focusRank_def)
  have m: "mset ?ranked = mset ?kept" by (rule mset_foldr_place)
  then have s: "set ?ranked = set ?kept" by (metis set_mset_mset)
  have f: "fst ` set ?ranked = set focusFeatures"
    unfolding s using assms by force
  have v: "\<forall>p \<in> set ?ranked. p \<in> set fullRanking"
    unfolding s by simp
  have t: "sorted_wrt (ranks_before focusFeatures) ?ranked"
    by (rule sorted_foldr_place)
  have d: "sorted_wrt (\<lambda>a b. snd b \<le> snd a) ?ranked"
    by (rule sorted_wrt_mono_rel [OF _ t]) (simp add: ranks_before_imp_ge)
  from r m f v t d show ?thesis by blast
qed


text \<open>
  C1 (as stated, refuted). The claim speaks of every full ranking. A ranking that lacks a
  focus feature, as that of a model whose preprocessing dropped the column, gets no
  ranking back: \<open>focusRank\<close> fails with \<open>MissingFocusFeature\<close>.
\<close>

theorem C1_missing_focus_feature_counterexample:
  "focusRank [(''A'', 0.4 :: real), (''C'', 0.3)] [''A'', ''B'']
   = Inl (MissingFocusFeature ''B'')"
  by (simp add: focusRank_def)

text \<open>
  C1 (amended). When every focus feature is in the full ranking, \<open>focusRank\<close> returns a
  list that holds exactly the entries of the full ranking whose feature is a focus feature
  (as a multiset: nothing added, dropped or changed), so every pair it emits is a pair of
  the full ranking with the same importance value, the features are exactly the focus
  features, and the importance values do not increase along the list; ties follow the
  declaration order of the focus features. When a focus feature is not in the full ranking,
  \<open>focusRank\<close> returns no list: it fails with \<open>MissingFocusFeature\<close>, naming a focus feature
  the ranking lacks.
\<close>

theorem C1_focusRank_sorted_verbatim:
  "(set focusFeatures \<subseteq> fst ` set fullRanking \<longrightarrow>
      (\<exists>ranked. focusRank fullRanking focusFeatures = Inr ranked
           \<and> mset ranked = mset (filter (\<lambda>p. fst p \<in> set focusFeatures) fullRanking)
           \<and> fst ` set ranked = set focusFeatures
           \<and> (\<forall>p \<in> set ranked. p \<in> set fullRanking)
           \<and> sorted_wrt (\<lambda>a b. snd b \<le> snd a) ranked
           \<and> sorted_wrt (ranks_before focusFeatures) ranked))
   \<and> (\<not> set focusFeatures \<subseteq> fst ` set fullRanking \<longrightarrow>
      (\<exists>f. focusRank fullRanking focusFeatures = Inl (MissingFocusFeature f)
           \<and> f \<in> set focusFeatures \<and> f \<notin> fst ` set fullRanking))"
proof (intro conjI impI)
  assume "set focusFeatures \<subseteq> fst ` set fullRanking"
  then show "\<exists>ranked. focusRank fullRanking focusFeatures = Inr ranked
           \<and> mset ranked = mset (filter (\<lambda>p. fst p \<in> set focusFeatures) fullRanking)
           \<and> fst ` set ranked = set focusFeatures
           \<and> (\<forall>p \<in> set ranked. p \<in> set fullRanking)
           \<and> sorted_wrt (\<lambda>a b. snd b \<le> snd a) ranked
           \<and> sorted_wrt (ranks_before focusFeatures) ranked"
    by (rule focusRank_present)
next
  assume "\<not> set focusFeatures \<subseteq> fst ` set fullRanking"
  then show "\<exists>f. focusRank fullRanking focusFeatures = Inl (MissingFocusFeature f)
           \<and> f \<in> set focusFeatures \<and> f \<notin> fst ` set fullRanking"
    by (rule focusRank_missing)
qed

theorem C1_focusRank_sorted_verbatim_witness:
  "set [''A'', ''B''] \<subseteq> fst ` set [(''A'', 0.4 :: real), (''C'', 0.3), (''B'', 0.1)]
   \<and> focusRank [(''A'', 0.4 :: real), (''C'', 0.3), (''B'', 0.1)] [''A'', ''B'']
       = Inr [(''A'', 0.4), (''B'', 0.1)]
   \<and> \<not> set [''A'', ''B''] \<subseteq> fst ` set [(''A'', 0.4 :: real), (''C'', 0.3)]
   \<and> focusRank [(''A'', 0.4 :: real), (''C'', 0.3)] [''A'', ''B'']
       = Inl (MissingFocusFeature ''B'')"
proof -
  have h: "set [''A'', ''B''] \<subseteq> fst ` set [(''A'', 0.4 :: real), (''C'', 0.3), (''B'', 0.1)]"
    by simp
  have e: "focusRank [(''A'', 0.4 :: real), (''C'', 0.3), (''B'', 0.1)] [''A'', ''B'']
             = Inr [(''A'', 0.4), (''B'', 0.1)]"
    by (simp add: focusRank_def ranks_before_def)
  have n: "\<not> set [''A'', ''B''] \<subseteq> fst ` set [(''A'', 0.4 :: real), (''C'', 0.3)]"
    by simp
  from C1_focusRank_sorted_verbatim
         [of "[''A'', ''B'']" "[(''A'', 0.4 :: real), (''C'', 0.3)]"] n
  have "\<exists>f. focusRank [(''A'', 0.4 :: real), (''C'', 0.3)] [''A'', ''B'']
               = Inl (MissingFocusFeature f)
             \<and> f \<in> set [''A'', ''B''] \<and> f \<notin> fst ` set [(''A'', 0.4 :: real), (''C'', 0.3)]"
    by blast
  then have m: "focusRank [(''A'', 0.4 :: real), (''C'', 0.3)] [''A'', ''B'']
                  = Inl (MissingFocusFeature ''B'')"
    by auto
  from C1_focusRank_sorted_verbatim
         [of "[''A'', ''B'']" "[(''A'', 0.4 :: real), (''C'', 0.3), (''B'', 0.1)]"] h e n m
  show ?thesis by simp
qed

section \<open>Properties of \<open>med\<close>\<close>
lemma sorted_count_le:
  fixes ys :: "real list"
  assumes "sorted ys" "j < length ys" "ys ! j \<le> r"
  shows "j + 1 \<le> length (filter (\<lambda>x. x \<le> r) ys)"
proof -
  have "{0..j} \<subseteq> {i. i < length ys \<and> ys ! i \<le> r}"
  proof
    fix i assume "i \<in> {0..j}"
    then have ij: "i \<le> j" by simp
    then have "ys ! i \<le> ys ! j" using assms(1,2) by (simp add: sorted_nth_mono)
    then show "i \<in> {i. i < length ys \<and> ys ! i \<le> r}" using ij assms(2,3) by simp
  qed
  then have "card {0..j} \<le> card {i. i < length ys \<and> ys ! i \<le> r}"
    by (intro card_mono) auto
  then show ?thesis by (simp add: length_filter_conv_card)
qed

lemma sorted_count_ge:
  fixes ys :: "real list"
  assumes "sorted ys" "j < length ys" "r \<le> ys ! j"
  shows "length ys - j \<le> length (filter (\<lambda>x. r \<le> x) ys)"
proof -
  have "{j..<length ys} \<subseteq> {i. i < length ys \<and> r \<le> ys ! i}"
  proof
    fix i assume "i \<in> {j..<length ys}"
    then have ij: "j \<le> i" "i < length ys" by simp_all
    then have "ys ! j \<le> ys ! i" using assms(1) by (simp add: sorted_nth_mono)
    then show "i \<in> {i. i < length ys \<and> r \<le> ys ! i}" using ij assms(3) by simp
  qed
  then have "card {j..<length ys} \<le> card {i. i < length ys \<and> r \<le> ys ! i}"
    by (intro card_mono) auto
  then show ?thesis by (simp add: length_filter_conv_card)
qed

lemma length_filter_sort:
  "length (filter P (sort xs)) = length (filter P xs)"
proof -
  have "mset (filter P (sort xs)) = mset (filter P xs)" by simp
  then show ?thesis by (metis size_mset)
qed

lemma median_of_splits:
  assumes "xs \<noteq> []"
  shows "length xs \<le> 2 * length (filter (\<lambda>x. x \<le> median_of xs) xs)"
    and "length xs \<le> 2 * length (filter (\<lambda>x. median_of xs \<le> x) xs)"
proof -
  let ?ys = "sort xs" and ?n = "length xs" and ?k = "length xs div 2"
  have n: "0 < ?n" using assms by simp
  have srt: "sorted ?ys" and len: "length ?ys = ?n" by simp_all
  have k: "?k < length ?ys" using n by simp
  show "length xs \<le> 2 * length (filter (\<lambda>x. x \<le> median_of xs) xs)"
  proof (cases "odd ?n")
    case True
    then have m: "median_of xs = ?ys ! ?k" by (simp add: median_of_def Let_def)
    have "?k + 1 \<le> length (filter (\<lambda>x. x \<le> median_of xs) ?ys)"
      using sorted_count_le [OF srt k] m by simp
    then show ?thesis unfolding length_filter_sort using True by presburger
  next
    case False
    then have m: "median_of xs = (?ys ! (?k - 1) + ?ys ! ?k) / 2" by (simp add: median_of_def Let_def)
    from False n have k1: "1 \<le> ?k" by presburger
    have "?ys ! (?k - 1) \<le> ?ys ! ?k" using srt k by (simp add: sorted_nth_mono)
    then have "?ys ! (?k - 1) \<le> median_of xs" unfolding m by simp
    moreover have "?k - 1 < length ?ys" using k by simp
    ultimately have "(?k - 1) + 1 \<le> length (filter (\<lambda>x. x \<le> median_of xs) ?ys)"
      using sorted_count_le [OF srt] by blast
    then show ?thesis unfolding length_filter_sort using False k1 by presburger
  qed
  show "length xs \<le> 2 * length (filter (\<lambda>x. median_of xs \<le> x) xs)"
  proof (cases "odd ?n")
    case True
    then have m: "median_of xs = ?ys ! ?k" by (simp add: median_of_def Let_def)
    have "length ?ys - ?k \<le> length (filter (\<lambda>x. median_of xs \<le> x) ?ys)"
      using sorted_count_ge [OF srt k] m by simp
    then show ?thesis unfolding length_filter_sort len by presburger
  next
    case False
    then have m: "median_of xs = (?ys ! (?k - 1) + ?ys ! ?k) / 2" by (simp add: median_of_def Let_def)
    have "?ys ! (?k - 1) \<le> ?ys ! ?k" using srt k by (simp add: sorted_nth_mono)
    then have "median_of xs \<le> ?ys ! ?k" unfolding m by simp
    then have "length ?ys - ?k \<le> length (filter (\<lambda>x. median_of xs \<le> x) ?ys)"
      using sorted_count_ge [OF srt k] by blast
    then show ?thesis unfolding length_filter_sort len by presburger
  qed
qed

lemma med_value:
  "med rnd h arr
   = (if h ! arr = [] then (h, Fin 0)
      else (h @ [sort (h ! arr)],
            if odd (length (h ! arr)) then Fin (sort (h ! arr) ! (length (h ! arr) div 2))
            else js_div_pos rnd
                   (js_add rnd (Fin (sort (h ! arr) ! (length (h ! arr) div 2 - 1)))
                               (Fin (sort (h ! arr) ! (length (h ! arr) div 2)))) 2))"
proof (cases "h ! arr = []")
  case True
  then show ?thesis by (simp add: med_def)
next
  case False
  then show ?thesis
    by (simp add: med_def spread_def sort_in_place_def Let_def odd_iff_mod_2_eq_one
        cong: if_cong)
qed

lemma overflow_at_value: "overflow_at = 2 ^ 970 * (2 ^ 54 - 1)"
  by (simp add: overflow_at_def algebra_simps flip: power_add)

lemma overflow_at_ge: "2 ^ 53 \<le> overflow_at"
proof -
  have "(1::real) \<le> 2 ^ 970" by simp
  moreover have "(2::real) ^ 53 \<le> 2 ^ 54 - 1" by simp
  ultimately have "(1::real) * 2 ^ 53 \<le> 2 ^ 970 * (2 ^ 54 - 1)"
    by (intro mult_mono) simp_all
  then show ?thesis unfolding overflow_at_value by simp
qed

lemma overflow_at_le: "overflow_at \<le> 2 ^ 1024"
  by (simp add: overflow_at_def)

lemma to_double_in_range: "\<bar>x\<bar> < overflow_at \<Longrightarrow> to_double rnd x = Fin (rnd x)"
proof -
  assume "\<bar>x\<bar> < overflow_at"
  then have "\<not> overflow_at \<le> x" and "\<not> x \<le> - overflow_at" by linarith+
  then show ?thesis by (simp add: to_double_def)
qed

lemma half_sum_in_range:
  assumes "\<bar>a + b\<bar> < overflow_at"
  shows "js_div_pos rnd (js_add rnd (Fin a) (Fin b)) 2 = to_double rnd (rnd (a + b) / 2)"
  by (simp add: to_double_in_range [OF assms] js_div_pos_def)

lemma half_sum_exact:
  assumes "\<bar>a + b\<bar> < overflow_at" "rnd (a + b) = a + b" "rnd ((a + b) / 2) = (a + b) / 2"
  shows "js_div_pos rnd (js_add rnd (Fin a) (Fin b)) 2 = Fin ((a + b) / 2)"
proof -
  have "\<bar>(a + b) / 2\<bar> \<le> \<bar>a + b\<bar>" by simp
  with assms(1) have "\<bar>(a + b) / 2\<bar> < overflow_at" by linarith
  then have "to_double rnd ((a + b) / 2) = Fin (rnd ((a + b) / 2))"
    by (rule to_double_in_range)
  then show ?thesis
    unfolding half_sum_in_range [OF assms(1)] assms(2) assms(3) .
qed

lemma half_sum_overflow:
  assumes "overflow_at \<le> a + b"
  shows "js_div_pos rnd (js_add rnd (Fin a) (Fin b)) 2 = PosInf"
  using assms by (simp add: js_div_pos_def to_double_def)

text \<open>
  Rounding keeps the result between the two middle elements: for any rounding that is
  monotone and leaves the two elements and their doubles unchanged, the value computed for
  an even length is a finite number between them.
\<close>

lemma half_sum_between:
  assumes mono: "\<And>x y. x \<le> y \<Longrightarrow> rnd x \<le> rnd y"
    and fixed: "rnd a = a" "rnd b = b" "rnd (2 * a) = 2 * a" "rnd (2 * b) = 2 * b"
    and ab: "a \<le> b"
    and fin: "\<bar>2 * a\<bar> < overflow_at" "\<bar>2 * b\<bar> < overflow_at"
  shows "\<exists>m. js_div_pos rnd (js_add rnd (Fin a) (Fin b)) 2 = Fin m \<and> a \<le> m \<and> m \<le> b"
proof -
  let ?s = "rnd (a + b)"
  from ab fin have sum: "\<bar>a + b\<bar> < overflow_at" by linarith
  have "rnd (2 * a) \<le> ?s" using ab by (intro mono) simp
  then have lo: "2 * a \<le> ?s" using fixed(3) by simp
  have "?s \<le> rnd (2 * b)" using ab by (intro mono) simp
  then have hi: "?s \<le> 2 * b" using fixed(4) by simp
  from lo hi fin have half: "\<bar>?s / 2\<bar> < overflow_at" by linarith
  have "rnd a \<le> rnd (?s / 2)" using lo by (intro mono) simp
  then have l: "a \<le> rnd (?s / 2)" using fixed(1) by simp
  have "rnd (?s / 2) \<le> rnd b" using hi by (intro mono) simp
  then have u: "rnd (?s / 2) \<le> b" using fixed(2) by simp
  have "js_div_pos rnd (js_add rnd (Fin a) (Fin b)) 2 = Fin (rnd (?s / 2))"
    unfolding half_sum_in_range [OF sum] by (rule to_double_in_range [OF half])
  with l u show ?thesis by blast
qed

lemma summaryStats_depthMedian:
  "depthMedian (summaryStats lit rnd customRows)
   = snd (med rnd [getNum lit customRows ''koi_depth''] 0)"
  by (simp add: summaryStats_def Let_def)

text \<open>
  C10 (as stated, refuted). The claim has \<open>med\<close> return the average of the two middle
  elements for every array of even length. For the array of two copies of \<open>2^1023\<close>, a
  double, the sum of the two middle elements is \<open>2^1024\<close>, which is past the largest double:
  \<open>med\<close> returns Infinity, and the median is \<open>2^1023\<close>.
\<close>

theorem C10_average_overflows_counterexample:
  "med exact [[2 ^ 1023, 2 ^ 1023]] 0
     = ([[2 ^ 1023, 2 ^ 1023], [2 ^ 1023, 2 ^ 1023]], PosInf)
   \<and> median_of [2 ^ 1023, 2 ^ 1023] = 2 ^ 1023"
proof -
  have "overflow_at \<le> 2 ^ 1023 + 2 ^ 1023"
    using overflow_at_le by simp
  then have "js_div_pos exact (js_add exact (Fin (2 ^ 1023)) (Fin (2 ^ 1023))) 2 = PosInf"
    by (rule half_sum_overflow)
  then have "med exact [[2 ^ 1023, 2 ^ 1023]] 0
               = ([[2 ^ 1023, 2 ^ 1023], [2 ^ 1023, 2 ^ 1023]], PosInf)"
    by (simp add: med_value)
  moreover have "median_of [2 ^ 1023, 2 ^ 1023] = 2 ^ 1023"
    by (simp add: median_of_def)
  ultimately show ?thesis by simp
qed

text \<open>
  C10 (amended). \<open>med\<close> leaves every array of the store it was given as it was, its
  argument among them. For the empty array it returns 0. For an array of odd length it
  returns the middle element of the sorted array, which is the median. For a non-empty
  array of even length it returns \<open>(s[m-1] + s[m]) / 2\<close> as computed in doubles: while the
  exact sum of the two middle elements is below the overflow threshold in magnitude, that
  is the rounded half of the rounded sum, and it is the average of the two middle elements,
  the median, whenever that sum and its half are doubles themselves. The median splits the
  array in the middle: at least half of the elements are at most it, and at least half are
  at least it.
\<close>

theorem C10_med_is_median:
  assumes "arr < length h" and "med rnd h arr = (h', r)"
  shows "(\<forall>a < length h. h' ! a = h ! a)
         \<and> (h ! arr = [] \<longrightarrow> r = Fin 0)
         \<and> (odd (length (h ! arr)) \<longrightarrow>
              r = Fin (median_of (h ! arr))
              \<and> length (h ! arr) \<le> 2 * length (filter (\<lambda>x. x \<le> median_of (h ! arr)) (h ! arr))
              \<and> length (h ! arr) \<le> 2 * length (filter (\<lambda>x. median_of (h ! arr) \<le> x) (h ! arr)))
         \<and> (h ! arr \<noteq> [] \<and> even (length (h ! arr)) \<longrightarrow>
              (\<forall>a b. a = sort (h ! arr) ! (length (h ! arr) div 2 - 1)
                   \<and> b = sort (h ! arr) ! (length (h ! arr) div 2)
                   \<and> \<bar>a + b\<bar> < overflow_at \<longrightarrow>
                 r = to_double rnd (rnd (a + b) / 2)
                 \<and> (rnd (a + b) = a + b \<and> rnd ((a + b) / 2) = (a + b) / 2 \<longrightarrow>
                      r = Fin (median_of (h ! arr))
                      \<and> length (h ! arr)
                          \<le> 2 * length (filter (\<lambda>x. x \<le> median_of (h ! arr)) (h ! arr))
                      \<and> length (h ! arr)
                          \<le> 2 * length (filter (\<lambda>x. median_of (h ! arr) \<le> x) (h ! arr)))))"
proof -
  let ?xs = "h ! arr"
  let ?a = "sort ?xs ! (length ?xs div 2 - 1)"
  let ?b = "sort ?xs ! (length ?xs div 2)"
  have keep: "\<forall>a < length h. h' ! a = h ! a"
  proof (cases "?xs = []")
    case True
    with assms(2) show ?thesis by (simp add: med_value)
  next
    case False
    with assms(2) have "h' = h @ [sort ?xs]" by (simp add: med_value)
    then show ?thesis by (simp add: nth_append)
  qed
  have empty: "?xs = [] \<longrightarrow> r = Fin 0"
    using assms(2) by (auto simp: med_value)
  have odd_case: "r = Fin (median_of ?xs)
      \<and> length ?xs \<le> 2 * length (filter (\<lambda>x. x \<le> median_of ?xs) ?xs)
      \<and> length ?xs \<le> 2 * length (filter (\<lambda>x. median_of ?xs \<le> x) ?xs)"
    if o: "odd (length ?xs)"
  proof -
    from o have ne: "?xs \<noteq> []" by auto
    with assms(2) o have "r = Fin (sort ?xs ! (length ?xs div 2))"
      by (simp add: med_value)
    also have "sort ?xs ! (length ?xs div 2) = median_of ?xs"
      using o by (simp add: median_of_def Let_def)
    finally show ?thesis using median_of_splits [OF ne] by simp
  qed
  have even_case: "r = to_double rnd (rnd (?a + ?b) / 2)
      \<and> (rnd (?a + ?b) = ?a + ?b \<and> rnd ((?a + ?b) / 2) = (?a + ?b) / 2 \<longrightarrow>
            r = Fin (median_of ?xs)
            \<and> length ?xs \<le> 2 * length (filter (\<lambda>x. x \<le> median_of ?xs) ?xs)
            \<and> length ?xs \<le> 2 * length (filter (\<lambda>x. median_of ?xs \<le> x) ?xs))"
    if ne: "?xs \<noteq> []" and e: "even (length ?xs)" and fin: "\<bar>?a + ?b\<bar> < overflow_at"
  proof -
    from assms(2) ne e have r: "r = js_div_pos rnd (js_add rnd (Fin ?a) (Fin ?b)) 2"
      by (simp add: med_value)
    have m: "median_of ?xs = (?a + ?b) / 2"
      using e by (simp add: median_of_def Let_def)
    have "r = to_double rnd (rnd (?a + ?b) / 2)"
      unfolding r by (rule half_sum_in_range [OF fin])
    moreover have "r = Fin (median_of ?xs)"
      if "rnd (?a + ?b) = ?a + ?b" "rnd ((?a + ?b) / 2) = (?a + ?b) / 2"
      unfolding r m by (rule half_sum_exact [OF fin that])
    ultimately show ?thesis using median_of_splits [OF ne] by blast
  qed
  from keep empty odd_case even_case show ?thesis by blast
qed

theorem C10_med_is_median_witness:
  "(1::nat) < length [[3, 1, 2], [4, 1, 3, 2 :: real]]
   \<and> med exact [[3, 1, 2], [4, 1, 3, 2]] 1 = ([[3, 1, 2], [4, 1, 3, 2], [1, 2, 3, 4]], Fin (5 / 2))
   \<and> \<bar>2 + 3 :: real\<bar> < overflow_at
   \<and> exact (2 + 3) = 2 + 3 \<and> exact ((2 + 3) / 2) = (2 + 3) / 2
   \<and> median_of [4, 1, 3, 2] = 5 / 2
   \<and> (0::nat) < length [[3, 1, 2], [4, 1, 3, 2 :: real]]
   \<and> med exact [[3, 1, 2], [4, 1, 3, 2]] 0 = ([[3, 1, 2], [4, 1, 3, 2], [1, 2, 3]], Fin 2)
   \<and> median_of [3, 1, 2] = 2"
proof -
  have h1: "(1::nat) < length [[3, 1, 2], [4, 1, 3, 2 :: real]]" by simp
  have h0: "(0::nat) < length [[3, 1, 2], [4, 1, 3, 2 :: real]]" by simp
  have f: "\<bar>2 + 3 :: real\<bar> < overflow_at" using overflow_at_ge by simp
  have x: "exact (2 + 3) = 2 + 3 \<and> exact ((2 + 3) / 2) = (2 + 3) / 2"
    by (simp add: exact_def)
  have s: "sort [4, 1, 3, 2 :: real] = [1, 2, 3, 4]" by simp
  have e1: "med exact [[3, 1, 2], [4, 1, 3, 2]] 1
              = ([[3, 1, 2], [4, 1, 3, 2], [1, 2, 3, 4]], Fin (5 / 2))"
    using half_sum_exact [OF f, of exact] x by (simp add: med_value)
  have e0: "med exact [[3, 1, 2], [4, 1, 3, 2]] 0 = ([[3, 1, 2], [4, 1, 3, 2], [1, 2, 3]], Fin 2)"
    by (simp add: med_value)
  from C10_med_is_median [OF h1 e1] C10_med_is_median [OF h0 e0] h1 h0 e1 e0 f x
  show ?thesis by (simp add: median_of_def)
qed

end
